theory Spec2Isabelle
  imports Main
begin

section \<open>JavaScript values\<close>

text \<open>
  A text is a \<open>string\<close>; one character of it stands for one code unit of the JavaScript
  string, which is what \<^verbatim>\<open>charAt\<close>, \<^verbatim>\<open>slice\<close> and \<^verbatim>\<open>length\<close> count. The empty text is the only
  falsy one.

  A value caught by a \<^verbatim>\<open>catch\<close> clause is either an \<^verbatim>\<open>Error\<close> object, which carries a
  message, or any other thrown value. An awaited call either throws or returns.
\<close>

datatype thrown = Error (message: string) | NonError string

type_synonym 'a outcome = "thrown + 'a"

text \<open>Truthiness of an optional number and of an optional string.\<close>

definition truthy_number :: "int option \<Rightarrow> bool" where
  "truthy_number n = (case n of None \<Rightarrow> False | Some i \<Rightarrow> i \<noteq> 0)"

definition truthy_string :: "string option \<Rightarrow> bool" where
  "truthy_string s = (case s of None \<Rightarrow> False | Some t \<Rightarrow> t \<noteq> [])"

text \<open>
  A \<^verbatim>\<open>Record<string, string>\<close> keeps its entries in insertion order;
  \<^verbatim>\<open>Object.values\<close> and \<^verbatim>\<open>Object.keys\<close> read them in that order.
\<close>

type_synonym string_record = "(string \<times> string) list"

definition Object_values :: "string_record \<Rightarrow> string list" where
  "Object_values r = map snd r"

definition Object_keys :: "string_record \<Rightarrow> string list" where
  "Object_keys r = map fst r"

section \<open>Records of the data model\<close>

text \<open>
  A tag as the form holds it: \<^verbatim>\<open>id\<close> is undefined for a tag the user has just created,
  and \<^verbatim>\<open>slug\<close> may be missing.
\<close>

record tag =
  tag_id :: "int option"
  tag_name :: string
  tag_slug :: "string option"

record user =
  user_id :: "string option"
  username :: string

text \<open>The object that \<^verbatim>\<open>onSubmit\<close> passes to \<^verbatim>\<open>addComponent\<close>.\<close>

record componentData =
  cd_name :: string
  cd_component_name :: string
  cd_demo_component_name :: string
  cd_component_slug :: string
  cd_code :: string
  cd_demo_code :: string
  cd_description :: string
  cd_install_url :: string
  cd_user_id :: string
  cd_dependencies :: string
  cd_demo_dependencies :: string
  cd_internal_dependencies :: string
  cd_preview_url :: string

datatype image_file = ImageFile string

section \<open>The backend as the code sees it\<close>

text \<open>
  Every call to the backend-as-a-service is one request, and the requests made are kept in
  a journal, oldest first. That an operation is attempted once, or that nothing is written
  to undo an earlier write, is a statement about this journal.
\<close>

text \<open>
  A read of the \<^verbatim>\<open>components\<close> table as the query builder assembles it: the column list
  of \<^verbatim>\<open>select\<close>, the \<^verbatim>\<open>eq\<close> filters in the order they are chained, \<^verbatim>\<open>limit\<close> and
  \<^verbatim>\<open>single\<close>.
\<close>

datatype filter_value = Str string | Bool bool

record query =
  q_table :: string
  q_select :: string
  q_filters :: "(string \<times> filter_value) list"
  q_limit :: "nat option"
  q_single :: bool

text \<open>
  A row of \<^verbatim>\<open>components\<close> with its embedded user and, where the select asks for them, its
  tags. The type parameter is the shape of one entry of \<^verbatim>\<open>tags\<close>: the join returns
  objects \<^verbatim>\<open>{ tags: { name, slug } }\<close>, and \<^verbatim>\<open>getComponent\<close> unwraps them.
\<close>

type_synonym tag_ref = "string \<times> string"

record joined_tag =
  tags :: tag_ref

record 't component =
  c_id :: int
  c_component_slug :: string
  c_user_id :: string
  c_is_public :: bool
  c_user :: "user option"
  c_tags :: "'t list option"

datatype request =
    Read query
  | SelectTagId string
  | InsertTag string string
  | InsertComponentTag int int
  | UploadToStorage string string
  | UploadPreviewImage image_file string
  | AddComponent componentData
  | InsertLike string int
  | DeleteLike string int

text \<open>The \<^verbatim>\<open>{ data, error }\<close> pair a client call resolves to.\<close>

record 'a reply =
  data :: 'a
  error :: "string option"

text \<open>What \<^verbatim>\<open>insert(...).single()\<close> hands back as \<^verbatim>\<open>data\<close>.\<close>

datatype new_tag = NoRow | RowWithoutId | RowWithId int

text \<open>
  The client is a parameter: each operation maps the backend's state to an outcome and a
  new state. Nothing is assumed of it, so a theorem over every client covers every way the
  backend can answer, fail or throw. The first three fields are the three query-builder
  chains of \<^verbatim>\<open>addTagsToComponent\<close>. The last three are \<^verbatim>\<open>uploadToStorage\<close>,
  \<^verbatim>\<open>uploadPreviewImage\<close> (module \<^verbatim>\<open>./actions\<close>) and \<^verbatim>\<open>addComponent\<close>, whose bodies are not
  among the sources at hand: each is an awaited call that throws or returns, and
  \<^verbatim>\<open>addComponent\<close> returns the inserted row (here its id) or nothing. \<open>read_single\<close> and
  \<open>read_many\<close> run a read of \<^verbatim>\<open>components\<close> with and without \<^verbatim>\<open>single()\<close>; \<open>insert_like\<close> and
  \<open>delete_like\<close> are the insert and the delete on \<^verbatim>\<open>component_likes\<close>.
\<close>

record 'b client =
  select_tag_id :: "string \<Rightarrow> 'b \<Rightarrow> (int option) reply outcome \<times> 'b"
  insert_tag :: "string \<Rightarrow> string \<Rightarrow> 'b \<Rightarrow> new_tag reply outcome \<times> 'b"
  insert_component_tag :: "int \<Rightarrow> int \<Rightarrow> 'b \<Rightarrow> unit reply outcome \<times> 'b"
  uploadToStorage :: "string \<Rightarrow> string \<Rightarrow> 'b \<Rightarrow> string outcome \<times> 'b"
  uploadPreviewImage :: "image_file \<Rightarrow> string \<Rightarrow> 'b \<Rightarrow> string outcome \<times> 'b"
  addComponent :: "componentData \<Rightarrow> 'b \<Rightarrow> int option outcome \<times> 'b"
  read_single :: "query \<Rightarrow> 'b \<Rightarrow> (joined_tag component option) reply outcome \<times> 'b"
  read_many :: "query \<Rightarrow> 'b \<Rightarrow> (joined_tag component list option) reply outcome \<times> 'b"
  insert_like :: "string \<Rightarrow> int \<Rightarrow> 'b \<Rightarrow> unit reply outcome \<times> 'b"
  delete_like :: "string \<Rightarrow> int \<Rightarrow> 'b \<Rightarrow> unit reply outcome \<times> 'b"

text \<open>Functions the module imports from files that are not part of the sources at hand.\<close>

record externals =
  generateSlug :: "string \<Rightarrow> string"
  toUpperCase :: "string \<Rightarrow> string"
  JSON_stringify_names :: "string list \<Rightarrow> string"
  JSON_stringify_record :: "string_record \<Rightarrow> string"

datatype detail = NoDetail | Caught thrown | BackendError string

datatype console_entry = ConsoleError string detail

record 'b world =
  backend :: 'b
  requests :: "request list"
  console :: "console_entry list"

definition call :: "request \<Rightarrow> ('b \<Rightarrow> 'r \<times> 'b) \<Rightarrow> ('b, 'm) world_scheme \<Rightarrow> 'r \<times> ('b, 'm) world_scheme" where
  "call rq f w = (case f (backend w) of (r, b') \<Rightarrow> (r, w\<lparr>backend := b', requests := requests w @ [rq]\<rparr>))"

definition console_error :: "string \<Rightarrow> detail \<Rightarrow> ('b, 'm) world_scheme \<Rightarrow> ('b, 'm) world_scheme" where
  "console_error label d w = w\<lparr>console := console w @ [ConsoleError label d]\<rparr>"

text \<open>The kind of operation a request asks for; the delete is the only one that removes data.\<close>

datatype operation =
    ReadComponents | LookupTag | CreateTag | LinkTag | StoreFile | StorePreview | CreateComponent
  | CreateLike | RemoveLike

fun operation_of :: "request \<Rightarrow> operation" where
  "operation_of (Read q) = ReadComponents"
| "operation_of (SelectTagId slug) = LookupTag"
| "operation_of (InsertTag name slug) = CreateTag"
| "operation_of (InsertComponentTag componentId tagId) = LinkTag"
| "operation_of (UploadToStorage fileName content) = StoreFile"
| "operation_of (UploadPreviewImage f slug) = StorePreview"
| "operation_of (AddComponent cdata) = CreateComponent"
| "operation_of (InsertLike userId componentId) = CreateLike"
| "operation_of (DeleteLike userId componentId) = RemoveLike"

section \<open>likeComponent and unlikeComponent\<close>

text \<open>Both rethrow the error object of the reply, which is not an \<^verbatim>\<open>Error\<close> they construct.\<close>

definition likeComponent ::
  "'b client \<Rightarrow> string \<Rightarrow> int \<Rightarrow> ('b, 'm) world_scheme \<Rightarrow> unit outcome \<times> ('b, 'm) world_scheme" where
  "likeComponent sb userId componentId w =
     (case call (InsertLike userId componentId) (insert_like sb userId componentId) w of
        (Inl e, w1) \<Rightarrow> (Inl e, w1)
      | (Inr r, w1) \<Rightarrow>
          (case error r of
             Some m \<Rightarrow> (Inl (NonError m), console_error ''Error liking component:'' (BackendError m) w1)
           | None \<Rightarrow> (Inr (), w1)))"

definition unlikeComponent ::
  "'b client \<Rightarrow> string \<Rightarrow> int \<Rightarrow> ('b, 'm) world_scheme \<Rightarrow> unit outcome \<times> ('b, 'm) world_scheme" where
  "unlikeComponent sb userId componentId w =
     (case call (DeleteLike userId componentId) (delete_like sb userId componentId) w of
        (Inl e, w1) \<Rightarrow> (Inl e, w1)
      | (Inr r, w1) \<Rightarrow>
          (case error r of
             Some m \<Rightarrow> (Inl (NonError m), console_error ''Error unliking component:'' (BackendError m) w1)
           | None \<Rightarrow> (Inr (), w1)))"

section \<open>addTagsToComponent\<close>

definition capitalizedName :: "externals \<Rightarrow> string \<Rightarrow> string" where
  "capitalizedName ex name = toUpperCase ex (take 1 name) @ drop 1 name"

text \<open>
  The first half of the loop body: the tag's id. \<open>Inr None\<close> is the \<^verbatim>\<open>continue\<close> of the
  source; \<open>Inl\<close> is an exception thrown by the client, which nothing in the function catches.
\<close>

definition resolveTagId ::
  "'b client \<Rightarrow> externals \<Rightarrow> tag \<Rightarrow> ('b, 'm) world_scheme \<Rightarrow> int option outcome \<times> ('b, 'm) world_scheme" where
  "resolveTagId sb ex t w =
     (if truthy_number (tag_id t) then (Inr (tag_id t), w)
      else
        let slug = generateSlug ex (tag_name t) in
        (case call (SelectTagId slug) (select_tag_id sb slug) w of
           (Inl e, w1) \<Rightarrow> (Inl e, w1)
         | (Inr existing, w1) \<Rightarrow>
             (case data existing of
                Some i \<Rightarrow> (Inr (Some i), w1)
              | None \<Rightarrow>
                  (case call (InsertTag (capitalizedName ex (tag_name t)) slug)
                             (insert_tag sb (capitalizedName ex (tag_name t)) slug) w1 of
                     (Inl e, w2) \<Rightarrow> (Inl e, w2)
                   | (Inr inserted, w2) \<Rightarrow>
                       (case error inserted of
                          Some insertError \<Rightarrow>
                            (Inr None, console_error ''Error inserting tag:'' (BackendError insertError) w2)
                        | None \<Rightarrow>
                            (case data inserted of
                               RowWithId i \<Rightarrow> (Inr (Some i), w2)
                             | _ \<Rightarrow>
                               (Inr None,
                                console_error ''New tag was not created or does not have an id'' NoDetail w2)))))))"

text \<open>The second half of the loop body: the row of \<^verbatim>\<open>component_tags\<close>.\<close>

definition linkTag ::
  "'b client \<Rightarrow> int \<Rightarrow> int \<Rightarrow> ('b, 'm) world_scheme \<Rightarrow> unit outcome \<times> ('b, 'm) world_scheme" where
  "linkTag sb componentId tagId w =
     (case call (InsertComponentTag componentId tagId) (insert_component_tag sb componentId tagId) w of
        (Inl e, w1) \<Rightarrow> (Inl e, w1)
      | (Inr linked, w1) \<Rightarrow>
          (case error linked of
             Some linkError \<Rightarrow>
               (Inr (), console_error ''Error linking tag to component:'' (BackendError linkError) w1)
           | None \<Rightarrow> (Inr (), w1)))"

text \<open>One turn of the loop, and the loop over the tags.\<close>

definition addTag ::
  "'b client \<Rightarrow> externals \<Rightarrow> int \<Rightarrow> tag \<Rightarrow> ('b, 'm) world_scheme \<Rightarrow> unit outcome \<times> ('b, 'm) world_scheme" where
  "addTag sb ex componentId t w =
     (case resolveTagId sb ex t w of
        (Inl e, w1) \<Rightarrow> (Inl e, w1)
      | (Inr None, w1) \<Rightarrow> (Inr (), w1)
      | (Inr (Some tagId), w1) \<Rightarrow> linkTag sb componentId tagId w1)"

fun addTagsToComponent ::
  "'b client \<Rightarrow> externals \<Rightarrow> int \<Rightarrow> tag list \<Rightarrow> ('b, 'm) world_scheme \<Rightarrow> unit outcome \<times> ('b, 'm) world_scheme" where
  "addTagsToComponent sb ex componentId [] w = (Inr (), w)"
| "addTagsToComponent sb ex componentId (t # ts) w =
     (case addTag sb ex componentId t w of
        (Inl e, w1) \<Rightarrow> (Inl e, w1)
      | (Inr u, w1) \<Rightarrow> addTagsToComponent sb ex componentId ts w1)"

section \<open>Reads of the components table\<close>

text \<open>
  The select lists are template literals in the source; their line breaks and indentation
  carry no meaning for the query and are written here on one line.
\<close>

definition componentFields :: string where
  "componentFields = ''*, user:users!user_id (*)''"

record 'a fetched =
  fetched_data :: 'a
  fetched_error :: "thrown option"

definition unwrapTags :: "joined_tag component \<Rightarrow> tag_ref component" where
  "unwrapTags c =
     \<lparr> c_id = c_id c, c_component_slug = c_component_slug c, c_user_id = c_user_id c,
       c_is_public = c_is_public c, c_user = c_user c,
       c_tags = (case c_tags c of None \<Rightarrow> None | Some ts \<Rightarrow> Some (map tags ts)) \<rparr>"

definition getComponent_query :: "string \<Rightarrow> string \<Rightarrow> query" where
  "getComponent_query uname slug =
     \<lparr> q_table = ''components'',
       q_select = componentFields @ '', tags:component_tags(tags(name, slug))'',
       q_filters = [(''component_slug'', Str slug), (''user.username'', Str uname), (''is_public'', Bool True)],
       q_limit = None,
       q_single = True \<rparr>"

definition getComponent ::
  "'b client \<Rightarrow> string \<Rightarrow> string \<Rightarrow> ('b, 'm) world_scheme
     \<Rightarrow> (tag_ref component option) fetched outcome \<times> ('b, 'm) world_scheme" where
  "getComponent sb uname slug w =
     (case call (Read (getComponent_query uname slug)) (read_single sb (getComponent_query uname slug)) w of
        (Inl e, w1) \<Rightarrow> (Inl e, w1)
      | (Inr r, w1) \<Rightarrow>
          (case error r of
             Some m \<Rightarrow>
               (Inr \<lparr> fetched_data = None, fetched_error = Some (Error m) \<rparr>,
                console_error ''Error fetching component:'' (BackendError m) w1)
           | None \<Rightarrow>
               (Inr \<lparr> fetched_data = (case data r of None \<Rightarrow> None | Some c \<Rightarrow> Some (unwrapTags c)),
                      fetched_error = None \<rparr>, w1)))"

definition getUserComponents_query :: "string \<Rightarrow> query" where
  "getUserComponents_query userId =
     \<lparr> q_table = ''components'',
       q_select = componentFields,
       q_filters = [(''user_id'', Str userId), (''is_public'', Bool True)],
       q_limit = None,
       q_single = False \<rparr>"

definition getUserComponents ::
  "'b client \<Rightarrow> string \<Rightarrow> ('b, 'm) world_scheme
     \<Rightarrow> (joined_tag component list option) outcome \<times> ('b, 'm) world_scheme" where
  "getUserComponents sb userId w =
     (case call (Read (getUserComponents_query userId)) (read_many sb (getUserComponents_query userId)) w of
        (Inl e, w1) \<Rightarrow> (Inl e, w1)
      | (Inr r, w1) \<Rightarrow>
          (case error r of
             Some m \<Rightarrow> (Inr None, console_error ''Error fetching user components:'' (BackendError m) w1)
           | None \<Rightarrow> (Inr (data r), w1)))"

definition getComponents_query :: "string option \<Rightarrow> query" where
  "getComponents_query tagSlug =
     \<lparr> q_table = ''components'',
       q_select = ''*, user:users!user_id (*), component_tags!inner (tags!inner (slug))'',
       q_filters = (''is_public'', Bool True) #
          (case tagSlug of
             None \<Rightarrow> []
           | Some s \<Rightarrow> (if s \<noteq> [] then [(''component_tags.tags.slug'', Str s)] else [])),
       q_limit = Some 1000,
       q_single = False \<rparr>"

definition getComponents ::
  "'b client \<Rightarrow> string option \<Rightarrow> ('b, 'm) world_scheme
     \<Rightarrow> (joined_tag component list option) outcome \<times> ('b, 'm) world_scheme" where
  "getComponents sb tagSlug w =
     (case call (Read (getComponents_query tagSlug)) (read_many sb (getComponents_query tagSlug)) w of
        (Inl e, w1) \<Rightarrow> (Inl e, w1)
      | (Inr r, w1) \<Rightarrow>
          (case error r of
             Some m \<Rightarrow> (Inl (Error m), w1)
           | None \<Rightarrow> (Inr (data r), w1)))"

text \<open>The options \<^verbatim>\<open>useComponents\<close> hands to the query cache.\<close>

record ('k, 'f) query_options =
  queryKey :: 'k
  queryFn :: 'f
  refetchOnWindowFocus :: bool
  retry :: bool

definition useComponents ::
  "'b client \<Rightarrow> string option \<Rightarrow>
     (string \<times> string option,
      ('b, 'm) world_scheme \<Rightarrow> (joined_tag component list option) outcome \<times> ('b, 'm) world_scheme)
     query_options" where
  "useComponents sb tagSlug =
     \<lparr> queryKey = (''components'', tagSlug),
       queryFn = getComponents sb tagSlug,
       refetchOnWindowFocus = False,
       retry = False \<rparr>"

text \<open>
  What it means for a backend to apply the \<^verbatim>\<open>eq\<close> filters on columns of the row itself.
  Filters on embedded resources do not constrain the row.
\<close>

fun row_matches :: "'t component \<Rightarrow> string \<times> filter_value \<Rightarrow> bool" where
  "row_matches c (col, v) =
     (if col = ''is_public'' then v = Bool (c_is_public c)
      else if col = ''component_slug'' then v = Str (c_component_slug c)
      else if col = ''user_id'' then v = Str (c_user_id c)
      else True)"

definition honours_filters :: "'b client \<Rightarrow> bool" where
  "honours_filters sb \<longleftrightarrow>
     (\<forall>q b r b' rows. read_many sb q b = (Inr r, b') \<longrightarrow> data r = Some rows \<longrightarrow>
        (\<forall>c \<in> set rows. \<forall>f \<in> set (q_filters q). row_matches c f)) \<and>
     (\<forall>q b r b' c. read_single sb q b = (Inr r, b') \<longrightarrow> data r = Some c \<longrightarrow>
        (\<forall>f \<in> set (q_filters q). row_matches c f))"

section \<open>fetchDependencyComponents\<close>

definition dependency_query :: "string \<Rightarrow> query" where
  "dependency_query slug =
     \<lparr> q_table = ''components'',
       q_select = componentFields,
       q_filters = [(''component_slug'', Str slug)],
       q_limit = None,
       q_single = True \<rparr>"

text \<open>
  The callback of \<^verbatim>\<open>dependencySlugs.map\<close>: \<open>None\<close> is the \<^verbatim>\<open>null\<close> it returns on an error
  reply and on a caught exception.
\<close>

definition fetchDependency ::
  "'b client \<Rightarrow> string \<Rightarrow> ('b, 'm) world_scheme \<Rightarrow> joined_tag component option \<times> ('b, 'm) world_scheme" where
  "fetchDependency sb slug w =
     (case call (Read (dependency_query slug)) (read_single sb (dependency_query slug)) w of
        (Inl e, w1) \<Rightarrow> (None, console_error ''Error fetching dependency component:'' (Caught e) w1)
      | (Inr r, w1) \<Rightarrow>
          (case error r of
             Some m \<Rightarrow> (None, console_error ''Error fetching dependency component:'' (BackendError m) w1)
           | None \<Rightarrow> (data r, w1)))"

text \<open>
  The callbacks are started one after the other in the order of the slugs; none of them
  can reject, so \<^verbatim>\<open>Promise.all\<close> resolves to their results in that order.
\<close>

fun fetchDependencies ::
  "'b client \<Rightarrow> string list \<Rightarrow> ('b, 'm) world_scheme
     \<Rightarrow> joined_tag component option list \<times> ('b, 'm) world_scheme" where
  "fetchDependencies sb [] w = ([], w)"
| "fetchDependencies sb (slug # slugs) w =
     (case fetchDependency sb slug w of
        (c, w1) \<Rightarrow> (case fetchDependencies sb slugs w1 of (cs, w2) \<Rightarrow> (c # cs, w2)))"

definition fetchDependencyComponents ::
  "'b client \<Rightarrow> string list \<Rightarrow> ('b, 'm) world_scheme
     \<Rightarrow> joined_tag component option list \<times> ('b, 'm) world_scheme" where
  "fetchDependencyComponents sb dependencySlugs w =
     (case fetchDependencies sb dependencySlugs w of
        (components, w1) \<Rightarrow> (filter (\<lambda>c. c \<noteq> None) components, w1))"

text \<open>
  The replies the backend gives to the dependency reads, one per slug, in order. This is
  the yardstick the result of \<open>fetchDependencyComponents\<close> is compared with.
\<close>

fun dependency_replies ::
  "'b client \<Rightarrow> string list \<Rightarrow> 'b \<Rightarrow> (joined_tag component option) reply outcome list" where
  "dependency_replies sb [] b = []"
| "dependency_replies sb (slug # slugs) b =
     (case read_single sb (dependency_query slug) b of
        (r, b') \<Rightarrow> r # dependency_replies sb slugs b')"

definition succeeded :: "(joined_tag component option) reply outcome \<Rightarrow> joined_tag component option" where
  "succeeded r =
     (case r of
        Inl e \<Rightarrow> None
      | Inr rep \<Rightarrow> (case error rep of Some m \<Rightarrow> None | None \<Rightarrow> data rep))"

section \<open>The form: onSubmit\<close>

record formData =
  fd_name :: string
  fd_component_slug :: string
  fd_code :: string
  fd_demo_code :: string
  fd_description :: string
  fd_preview_url :: "image_file option"

record componentDependencies =
  dependencies :: string_record
  demoDependencies :: string_record
  internalDependencies :: string_record
  componentNames :: "string list"
  demoComponentName :: string

text \<open>
  What the \<^verbatim>\<open>onSubmit\<close> closure reads from the render it was created in: the signed-in
  user, the parsed dependency state, the demo code and tags of \<^verbatim>\<open>form.getValues()\<close>, and
  the environment variable \<^verbatim>\<open>NEXT_PUBLIC_API_URL\<close>.
\<close>

record closure =
  cl_user :: "user option"
  cl_componentDependencies :: componentDependencies
  cl_demoCode :: string
  cl_validTags :: "tag list option"
  cl_NEXT_PUBLIC_API_URL :: "string option"

record 'b page = "'b world" +
  alerts :: "string list"
  isLoading :: bool
  isSuccessDialogOpen :: bool

definition alert :: "string \<Rightarrow> ('b, 'm) page_scheme \<Rightarrow> ('b, 'm) page_scheme" where
  "alert msg w = w\<lparr>alerts := alerts w @ [msg]\<rparr>"

text \<open>A template literal renders an undefined value as the text \<^verbatim>\<open>undefined\<close>.\<close>

definition template_string :: "string option \<Rightarrow> string" where
  "template_string v = (case v of None \<Rightarrow> ''undefined'' | Some s \<Rightarrow> s)"

text \<open>
  \<^verbatim>\<open>Promise.all\<close> of two promises that have both been started: it resolves to both values,
  or rejects with the reason of the promise that rejects first. Which of two rejections
  comes first is decided outside the code; \<open>first\<close> says whether it is the left one.
\<close>

definition Promise_all2 :: "bool \<Rightarrow> 'a outcome \<Rightarrow> 'c outcome \<Rightarrow> ('a \<times> 'c) outcome" where
  "Promise_all2 first p q =
     (case (p, q) of
        (Inr a, Inr c) \<Rightarrow> Inr (a, c)
      | (Inl e, Inr c) \<Rightarrow> Inl e
      | (Inr a, Inl e) \<Rightarrow> Inl e
      | (Inl e1, Inl e2) \<Rightarrow> Inl (if first then e1 else e2))"

definition buildComponentData ::
  "externals \<Rightarrow> closure \<Rightarrow> formData \<Rightarrow> string \<Rightarrow> string \<Rightarrow> string \<Rightarrow> string \<Rightarrow> componentData" where
  "buildComponentData ex cl d uid codeUrl demoCodeUrl previewImageUrl =
     \<lparr> cd_name = fd_name d,
       cd_component_name = JSON_stringify_names ex (componentNames (cl_componentDependencies cl)),
       cd_demo_component_name = demoComponentName (cl_componentDependencies cl),
       cd_component_slug = fd_component_slug d,
       cd_code = codeUrl,
       cd_demo_code = demoCodeUrl,
       cd_description = fd_description d,
       cd_install_url = template_string (cl_NEXT_PUBLIC_API_URL cl) @ ''/api/r/'' @ fd_component_slug d,
       cd_user_id = uid,
       cd_dependencies = JSON_stringify_record ex (dependencies (cl_componentDependencies cl)),
       cd_demo_dependencies = JSON_stringify_record ex (demoDependencies (cl_componentDependencies cl)),
       cd_internal_dependencies = JSON_stringify_record ex (internalDependencies (cl_componentDependencies cl)),
       cd_preview_url = previewImageUrl \<rparr>"

text \<open>
  The two storage uploads. Both calls are made before \<^verbatim>\<open>Promise.all\<close> is awaited, so both
  requests go out whatever the first one does.
\<close>

definition uploadCodeAndDemo ::
  "'b client \<Rightarrow> bool \<Rightarrow> closure \<Rightarrow> formData \<Rightarrow> ('b, 'm) page_scheme
     \<Rightarrow> (string \<times> string) outcome \<times> ('b, 'm) page_scheme" where
  "uploadCodeAndDemo sb first cl d w =
     (let codeFileName = fd_component_slug d @ ''-code.tsx'';
          demoCodeFileName = fd_component_slug d @ ''-demo.tsx''
      in
      (case call (UploadToStorage codeFileName (fd_code d)) (uploadToStorage sb codeFileName (fd_code d)) w of
         (p, w1) \<Rightarrow>
           (case call (UploadToStorage demoCodeFileName (cl_demoCode cl))
                      (uploadToStorage sb demoCodeFileName (cl_demoCode cl)) w1 of
              (q, w2) \<Rightarrow> (Promise_all2 first p q, w2))))"

text \<open>The preview image goes up only if the form holds one; otherwise its URL is empty.\<close>

definition uploadPreview ::
  "'b client \<Rightarrow> formData \<Rightarrow> ('b, 'm) page_scheme \<Rightarrow> string outcome \<times> ('b, 'm) page_scheme" where
  "uploadPreview sb d w =
     (case fd_preview_url d of
        None \<Rightarrow> (Inr [], w)
      | Some f \<Rightarrow>
          call (UploadPreviewImage f (fd_component_slug d)) (uploadPreviewImage sb f (fd_component_slug d)) w)"

text \<open>The insert of the component and, for an inserted row and a tag list at hand, the tags.\<close>

definition insertAndTag ::
  "'b client \<Rightarrow> externals \<Rightarrow> closure \<Rightarrow> componentData \<Rightarrow> ('b, 'm) page_scheme
     \<Rightarrow> unit outcome \<times> ('b, 'm) page_scheme" where
  "insertAndTag sb ex cl cdata w =
     (case call (AddComponent cdata) (addComponent sb cdata) w of
        (Inl e, w4) \<Rightarrow> (Inl e, w4)
      | (Inr None, w4) \<Rightarrow> (Inr (), w4)
      | (Inr (Some inserted_id), w4) \<Rightarrow>
          (case cl_validTags cl of
             None \<Rightarrow> (Inr (), w4)
           | Some validTags \<Rightarrow>
               (case addTagsToComponent sb ex inserted_id
                       (filter (\<lambda>t. truthy_string (tag_slug t)) validTags) w4 of
                  (Inl e, w5) \<Rightarrow> (Inl e, w5)
                | (Inr u, w5) \<Rightarrow> (Inr (), w5\<lparr>isSuccessDialogOpen := True\<rparr>))))"

text \<open>The body of the \<^verbatim>\<open>try\<close> block; \<open>Inl e\<close> is the exception that reaches \<^verbatim>\<open>catch\<close>.\<close>

definition submitBody ::
  "'b client \<Rightarrow> externals \<Rightarrow> bool \<Rightarrow> closure \<Rightarrow> string \<Rightarrow> formData \<Rightarrow> ('b, 'm) page_scheme
     \<Rightarrow> unit outcome \<times> ('b, 'm) page_scheme" where
  "submitBody sb ex first cl uid d w =
     (case uploadCodeAndDemo sb first cl d w of
        (Inl e, w2) \<Rightarrow> (Inl e, w2)
      | (Inr (codeUrl, demoCodeUrl), w2) \<Rightarrow>
          (case uploadPreview sb d w2 of
             (Inl e, w3) \<Rightarrow> (Inl e, w3)
           | (Inr previewImageUrl, w3) \<Rightarrow>
               insertAndTag sb ex cl
                 (buildComponentData ex cl d uid codeUrl demoCodeUrl previewImageUrl) w3))"

definition errorMessage :: "thrown \<Rightarrow> string" where
  "errorMessage e =
     ''An error occurred while adding the component'' @
     (case e of Error m \<Rightarrow> '': '' @ m | NonError v \<Rightarrow> [])"

definition authenticated :: "user option \<Rightarrow> string option" where
  "authenticated u =
     (case u of
        None \<Rightarrow> None
      | Some v \<Rightarrow> (if truthy_string (user_id v) then user_id v else None))"

definition onSubmit ::
  "'b client \<Rightarrow> externals \<Rightarrow> bool \<Rightarrow> closure \<Rightarrow> formData \<Rightarrow> ('b, 'm) page_scheme \<Rightarrow> ('b, 'm) page_scheme" where
  "onSubmit sb ex first cl d w =
     (case authenticated (cl_user cl) of
        None \<Rightarrow>
          alert ''You must be logged in to add a component.''
            (console_error ''User is not authenticated'' NoDetail w)
      | Some uid \<Rightarrow>
          if \<exists>slug \<in> set (Object_values (internalDependencies (cl_componentDependencies cl))). slug = []
          then alert ''Please specify the slug for all internal dependencies''
                 (console_error ''Internal dependencies not specified'' NoDetail w)
          else
            (case submitBody sb ex first cl uid d (w\<lparr>isLoading := True\<rparr>) of
               (Inl e, w1) \<Rightarrow>
                 (alert (errorMessage e) (console_error ''Error adding component:'' (Caught e) w1))
                   \<lparr>isLoading := False\<rparr>
             | (Inr u, w1) \<Rightarrow> w1\<lparr>isLoading := False\<rparr>))"

section \<open>The form: effects on the pasted code\<close>

text \<open>
  The parsing helpers (module \<^verbatim>\<open>utils/parsers\<close>) and \<^verbatim>\<open>prepareFilesForPreview\<close> are imported
  from files that are not among the sources at hand; they are parameters. Each may throw.
\<close>

record parsers =
  extractComponentNames :: "string \<Rightarrow> string list outcome"
  extractDependencies :: "string \<Rightarrow> string_record outcome"
  extractDemoComponentName :: "string \<Rightarrow> string outcome"
  findInternalDependencies :: "string_record \<Rightarrow> string_record \<Rightarrow> string_record outcome"
  removeComponentImports :: "string \<Rightarrow> string list \<Rightarrow> (string \<times> string list) outcome"
  prepareFilesForPreview :: "string \<Rightarrow> string \<Rightarrow> (string_record \<times> string_record) outcome"

text \<open>
  The state of the form component that the effects read and write: the two code fields of
  the form, the parsed dependency state, the imports that the last run of the demo-code
  effect took out, the preview's files and dependencies, and the console.
\<close>

record form_state =
  fs_code :: string
  fs_demo_code :: string
  fs_componentDependencies :: componentDependencies
  fs_importsToRemove :: "string list option"
  fs_previewProps :: "(string_record \<times> string_record) option"
  fs_showComponentDetails :: bool
  fs_console :: "console_entry list"

definition initial_form_state :: form_state where
  "initial_form_state =
     \<lparr> fs_code = [], fs_demo_code = [],
       fs_componentDependencies =
         \<lparr> dependencies = [], demoDependencies = [], internalDependencies = [],
           componentNames = [], demoComponentName = [] \<rparr>,
       fs_importsToRemove = None, fs_previewProps = None,
       fs_showComponentDetails = False, fs_console = [] \<rparr>"

text \<open>
  \<^verbatim>\<open>useEffect(effect, deps)\<close>: the effect runs after the first render and after every render
  whose dependency values differ from those of the render before.
\<close>

definition useEffect :: "'d option \<Rightarrow> 'd \<Rightarrow> ('s \<Rightarrow> 's) \<Rightarrow> 's \<Rightarrow> 's" where
  "useEffect previous deps effect st = (if previous = Some deps then st else effect st)"

text \<open>The \<^verbatim>\<open>try\<close> block of \<^verbatim>\<open>updateDependencies\<close>, in the order of its calls.\<close>

definition parseDependencies :: "parsers \<Rightarrow> string \<Rightarrow> string \<Rightarrow> componentDependencies outcome" where
  "parseDependencies ps code demoCode =
     (case extractComponentNames ps code of
        Inl e \<Rightarrow> Inl e
      | Inr names \<Rightarrow>
     (case extractDependencies ps code of
        Inl e \<Rightarrow> Inl e
      | Inr deps \<Rightarrow>
     (case extractDependencies ps demoCode of
        Inl e \<Rightarrow> Inl e
      | Inr demoDeps \<Rightarrow>
     (case extractDemoComponentName ps demoCode of
        Inl e \<Rightarrow> Inl e
      | Inr demoName \<Rightarrow>
     (case findInternalDependencies ps deps demoDeps of
        Inl e \<Rightarrow> Inl e
      | Inr internal \<Rightarrow>
          Inr \<lparr> dependencies = deps, demoDependencies = demoDeps, internalDependencies = internal,
                componentNames = names, demoComponentName = demoName \<rparr>)))))"

definition updateDependencies :: "parsers \<Rightarrow> form_state \<Rightarrow> form_state" where
  "updateDependencies ps st =
     (case parseDependencies ps (fs_code st) (fs_demo_code st) of
        Inr parsed \<Rightarrow> st\<lparr>fs_componentDependencies := parsed\<rparr>
      | Inl e \<Rightarrow>
          st\<lparr>fs_console := fs_console st @ [ConsoleError ''Error updating dependencies:'' (Caught e)]\<rparr>)"

definition dependenciesEffect :: "parsers \<Rightarrow> (string \<times> string) option \<Rightarrow> form_state \<Rightarrow> form_state" where
  "dependenciesEffect ps previous st =
     useEffect previous (fs_code st, fs_demo_code st) (updateDependencies ps) st"

text \<open>
  The effect on \<^verbatim>\<open>form.watch("demo_code")\<close>. Its guard \<^verbatim>\<open>!parsedComponentNames\<close> is false for
  every array, the empty one included, so the body always runs. Nothing catches an
  exception of the helpers here: \<open>Inl\<close> is the exception leaving the effect.
\<close>

definition demoCodeEffect :: "parsers \<Rightarrow> form_state \<Rightarrow> form_state outcome" where
  "demoCodeEffect ps st =
     (case removeComponentImports ps (fs_demo_code st) (componentNames (fs_componentDependencies st)) of
        Inl e \<Rightarrow> Inl e
      | Inr (modifiedCode, removedImports) \<Rightarrow>
          (case extractDemoComponentName ps modifiedCode of
             Inl e \<Rightarrow> Inl e
           | Inr demoName \<Rightarrow>
               (if demoName \<noteq> []
                then Inr (st\<lparr>fs_importsToRemove := Some removedImports,
                              fs_showComponentDetails := True,
                              fs_demo_code := modifiedCode\<rparr>)
                else Inr (st\<lparr>fs_importsToRemove := Some removedImports\<rparr>))))"

text \<open>The effect that builds, or clears, the props of the live preview.\<close>

definition previewEffect :: "parsers \<Rightarrow> form_state \<Rightarrow> form_state outcome" where
  "previewEffect ps st =
     (if fs_code st \<noteq> [] \<and> fs_demo_code st \<noteq> []
         \<and> length (Object_keys (internalDependencies (fs_componentDependencies st))) = 0
         \<and> (case fs_importsToRemove st of None \<Rightarrow> False | Some imports \<Rightarrow> length imports = 0)
      then
        (case prepareFilesForPreview ps (fs_code st) (fs_demo_code st) of
           Inl e \<Rightarrow> Inl e
         | Inr (files, deps) \<Rightarrow> Inr (st\<lparr>fs_previewProps := Some (files, deps)\<rparr>))
      else Inr (st\<lparr>fs_previewProps := None\<rparr>))"


section \<open>A reference backend\<close>

text \<open>
  One concrete backend, used to run the functions above: tables held in memory, and a
  plan that says which requests are answered with an error reply and which make the
  client throw. A lookup with \<^verbatim>\<open>single()\<close> is an error unless exactly one row matches.
\<close>

record tables =
  tags_table :: "(int \<times> string \<times> string) list"
  component_tags_table :: "(int \<times> int) list"
  component_likes_table :: "(string \<times> int) list"
  storage_objects :: "(string \<times> string) list"
  components_table :: "componentData list"
  component_rows :: "joined_tag component list"

datatype failure = Throws thrown | Fails string

definition tag_ids_by_slug :: "string \<Rightarrow> tables \<Rightarrow> int list" where
  "tag_ids_by_slug slug b = map fst (filter (\<lambda>row. snd (snd row) = slug) (tags_table b))"

definition ref_select_tag_id ::
  "(request \<Rightarrow> failure option) \<Rightarrow> string \<Rightarrow> tables \<Rightarrow> (int option) reply outcome \<times> tables" where
  "ref_select_tag_id plan slug b =
     (case plan (SelectTagId slug) of
        Some (Throws e) \<Rightarrow> (Inl e, b)
      | Some (Fails m) \<Rightarrow> (Inr \<lparr> data = None, error = Some m \<rparr>, b)
      | None \<Rightarrow>
          (case tag_ids_by_slug slug b of
             [i] \<Rightarrow> (Inr \<lparr> data = Some i, error = None \<rparr>, b)
           | _ \<Rightarrow> (Inr \<lparr> data = None, error = Some ''PGRST116'' \<rparr>, b)))"

definition ref_insert_tag ::
  "(request \<Rightarrow> failure option) \<Rightarrow> string \<Rightarrow> string \<Rightarrow> tables \<Rightarrow> new_tag reply outcome \<times> tables" where
  "ref_insert_tag plan name slug b =
     (case plan (InsertTag name slug) of
        Some (Throws e) \<Rightarrow> (Inl e, b)
      | Some (Fails m) \<Rightarrow> (Inr \<lparr> data = NoRow, error = Some m \<rparr>, b)
      | None \<Rightarrow>
          (Inr \<lparr> data = RowWithId (int (length (tags_table b)) + 1), error = None \<rparr>,
           b\<lparr>tags_table := tags_table b @ [(int (length (tags_table b)) + 1, name, slug)]\<rparr>))"

definition ref_insert_component_tag ::
  "(request \<Rightarrow> failure option) \<Rightarrow> int \<Rightarrow> int \<Rightarrow> tables \<Rightarrow> unit reply outcome \<times> tables" where
  "ref_insert_component_tag plan componentId tagId b =
     (case plan (InsertComponentTag componentId tagId) of
        Some (Throws e) \<Rightarrow> (Inl e, b)
      | Some (Fails m) \<Rightarrow> (Inr \<lparr> data = (), error = Some m \<rparr>, b)
      | None \<Rightarrow>
          (Inr \<lparr> data = (), error = None \<rparr>,
           b\<lparr>component_tags_table := component_tags_table b @ [(componentId, tagId)]\<rparr>))"

definition ref_uploadToStorage ::
  "(request \<Rightarrow> failure option) \<Rightarrow> string \<Rightarrow> string \<Rightarrow> tables \<Rightarrow> string outcome \<times> tables" where
  "ref_uploadToStorage plan fileName content b =
     (case plan (UploadToStorage fileName content) of
        Some (Throws e) \<Rightarrow> (Inl e, b)
      | Some (Fails m) \<Rightarrow> (Inl (Error m), b)
      | None \<Rightarrow>
          (Inr (''https://storage.example/'' @ fileName),
           b\<lparr>storage_objects := storage_objects b @ [(fileName, content)]\<rparr>))"

definition ref_uploadPreviewImage ::
  "(request \<Rightarrow> failure option) \<Rightarrow> image_file \<Rightarrow> string \<Rightarrow> tables \<Rightarrow> string outcome \<times> tables" where
  "ref_uploadPreviewImage plan f slug b =
     (case plan (UploadPreviewImage f slug) of
        Some (Throws e) \<Rightarrow> (Inl e, b)
      | Some (Fails m) \<Rightarrow> (Inl (Error m), b)
      | None \<Rightarrow>
          (case f of ImageFile content \<Rightarrow>
             (Inr (''https://storage.example/'' @ slug @ ''.png''),
              b\<lparr>storage_objects := storage_objects b @ [(slug @ ''.png'', content)]\<rparr>)))"

definition ref_addComponent ::
  "(request \<Rightarrow> failure option) \<Rightarrow> componentData \<Rightarrow> tables \<Rightarrow> int option outcome \<times> tables" where
  "ref_addComponent plan cdata b =
     (case plan (AddComponent cdata) of
        Some (Throws e) \<Rightarrow> (Inl e, b)
      | Some (Fails m) \<Rightarrow> (Inl (Error m), b)
      | None \<Rightarrow>
          (Inr (Some (int (length (components_table b)) + 1)),
           b\<lparr>components_table := components_table b @ [cdata]\<rparr>))"

definition ref_rows :: "query \<Rightarrow> tables \<Rightarrow> joined_tag component list" where
  "ref_rows q b =
     (let matching = filter (\<lambda>c. list_all (row_matches c) (q_filters q)) (component_rows b)
      in case q_limit q of None \<Rightarrow> matching | Some n \<Rightarrow> take n matching)"

definition ref_read_many ::
  "(request \<Rightarrow> failure option) \<Rightarrow> query \<Rightarrow> tables \<Rightarrow> (joined_tag component list option) reply outcome \<times> tables" where
  "ref_read_many plan q b =
     (case plan (Read q) of
        Some (Throws e) \<Rightarrow> (Inl e, b)
      | Some (Fails m) \<Rightarrow> (Inr \<lparr> data = None, error = Some m \<rparr>, b)
      | None \<Rightarrow> (Inr \<lparr> data = Some (ref_rows q b), error = None \<rparr>, b))"

definition ref_read_single ::
  "(request \<Rightarrow> failure option) \<Rightarrow> query \<Rightarrow> tables \<Rightarrow> (joined_tag component option) reply outcome \<times> tables" where
  "ref_read_single plan q b =
     (case plan (Read q) of
        Some (Throws e) \<Rightarrow> (Inl e, b)
      | Some (Fails m) \<Rightarrow> (Inr \<lparr> data = None, error = Some m \<rparr>, b)
      | None \<Rightarrow>
          (case ref_rows q b of
             [c] \<Rightarrow> (Inr \<lparr> data = Some c, error = None \<rparr>, b)
           | _ \<Rightarrow> (Inr \<lparr> data = None, error = Some ''PGRST116'' \<rparr>, b)))"

definition ref_insert_like ::
  "(request \<Rightarrow> failure option) \<Rightarrow> string \<Rightarrow> int \<Rightarrow> tables \<Rightarrow> unit reply outcome \<times> tables" where
  "ref_insert_like plan userId componentId b =
     (case plan (InsertLike userId componentId) of
        Some (Throws e) \<Rightarrow> (Inl e, b)
      | Some (Fails m) \<Rightarrow> (Inr \<lparr> data = (), error = Some m \<rparr>, b)
      | None \<Rightarrow>
          (Inr \<lparr> data = (), error = None \<rparr>,
           b\<lparr>component_likes_table := component_likes_table b @ [(userId, componentId)]\<rparr>))"

definition ref_delete_like ::
  "(request \<Rightarrow> failure option) \<Rightarrow> string \<Rightarrow> int \<Rightarrow> tables \<Rightarrow> unit reply outcome \<times> tables" where
  "ref_delete_like plan userId componentId b =
     (case plan (DeleteLike userId componentId) of
        Some (Throws e) \<Rightarrow> (Inl e, b)
      | Some (Fails m) \<Rightarrow> (Inr \<lparr> data = (), error = Some m \<rparr>, b)
      | None \<Rightarrow>
          (Inr \<lparr> data = (), error = None \<rparr>,
           b\<lparr>component_likes_table :=
               filter (\<lambda>row. row \<noteq> (userId, componentId)) (component_likes_table b)\<rparr>))"

definition reference_client :: "(request \<Rightarrow> failure option) \<Rightarrow> tables client" where
  "reference_client plan =
     \<lparr> select_tag_id = ref_select_tag_id plan,
       insert_tag = ref_insert_tag plan,
       insert_component_tag = ref_insert_component_tag plan,
       uploadToStorage = ref_uploadToStorage plan,
       uploadPreviewImage = ref_uploadPreviewImage plan,
       addComponent = ref_addComponent plan,
       read_single = ref_read_single plan,
       read_many = ref_read_many plan,
       insert_like = ref_insert_like plan,
       delete_like = ref_delete_like plan \<rparr>"

definition no_failures :: "request \<Rightarrow> failure option" where
  "no_failures rq = None"

definition empty_tables :: tables where
  "empty_tables =
     \<lparr> tags_table = [], component_tags_table = [], component_likes_table = [], storage_objects = [],
       components_table = [], component_rows = [] \<rparr>"

definition fresh_page :: "tables \<Rightarrow> tables page" where
  "fresh_page b =
     \<lparr> backend = b, requests = [], console = [],
       alerts = [], isLoading = False, isSuccessDialogOpen = False \<rparr>"

text \<open>Stand-ins for the imported helpers, for running the functions on examples.\<close>

definition example_externals :: externals where
  "example_externals =
     \<lparr> generateSlug = (\<lambda>name. name),
       toUpperCase = (\<lambda>s. if s = ''b'' then ''B'' else s),
       JSON_stringify_names = (\<lambda>names. concat names),
       JSON_stringify_record = (\<lambda>r. concat (map (\<lambda>(k, v). k @ '':'' @ v) r)) \<rparr>"

text \<open>A form, a parsed dependency state and a render closure to run \<^verbatim>\<open>onSubmit\<close> on.\<close>

definition example_form :: formData where
  "example_form =
     \<lparr> fd_name = ''Button'', fd_component_slug = ''button'',
       fd_code = ''export function Button() {}'',
       fd_demo_code = ''export function ButtonDemo() {}'',
       fd_description = ''A button'', fd_preview_url = None \<rparr>"

definition example_closure :: "user option \<Rightarrow> string_record \<Rightarrow> tag list \<Rightarrow> closure" where
  "example_closure u internal ts =
     \<lparr> cl_user = u,
       cl_componentDependencies =
         \<lparr> dependencies = [(''react'', ''latest'')], demoDependencies = [],
           internalDependencies = internal,
           componentNames = [''Button''], demoComponentName = ''ButtonDemo'' \<rparr>,
       cl_demoCode = ''export function ButtonDemo() {}'',
       cl_validTags = Some ts,
       cl_NEXT_PUBLIC_API_URL = Some ''https://api.example'' \<rparr>"

definition example_tags :: "tag list" where
  "example_tags =
     [\<lparr> tag_id = None, tag_name = ''button'', tag_slug = Some ''button'' \<rparr>,
      \<lparr> tag_id = Some 7, tag_name = ''Form'', tag_slug = Some ''form'' \<rparr>]"

definition example_user :: user where
  "example_user = \<lparr> user_id = Some ''user_1'', username = ''ada'' \<rparr>"

text \<open>A plan under which the insert of the component throws, and one under which the link of a tag is refused.\<close>

definition component_insert_throws :: "request \<Rightarrow> failure option" where
  "component_insert_throws rq =
     (if operation_of rq = CreateComponent then Some (Throws (Error ''duplicate key'')) else None)"

definition link_refused :: "request \<Rightarrow> failure option" where
  "link_refused rq = (if operation_of rq = LinkTag then Some (Fails ''permission denied'') else None)"

text \<open>The tags that \<^verbatim>\<open>onSubmit\<close> hands to \<^verbatim>\<open>addTagsToComponent\<close>.\<close>

definition submittedTags :: "closure \<Rightarrow> tag list" where
  "submittedTags cl =
     (case cl_validTags cl of
        None \<Rightarrow> []
      | Some validTags \<Rightarrow> filter (\<lambda>t. truthy_string (tag_slug t)) validTags)"

text \<open>
  Plans under which the lookup of a tag fails, with a backend that accepts a second tag of
  the same slug and with one that refuses it.
\<close>

definition lookup_fails :: "request \<Rightarrow> failure option" where
  "lookup_fails rq = (if operation_of rq = LookupTag then Some (Fails ''timeout'') else None)"

definition lookup_fails_slug_unique :: "request \<Rightarrow> failure option" where
  "lookup_fails_slug_unique rq =
     (if operation_of rq = LookupTag then Some (Fails ''timeout'')
      else if operation_of rq = CreateTag then Some (Fails ''duplicate key'')
      else None)"

definition one_tag_tables :: tables where
  "one_tag_tables = empty_tables\<lparr>tags_table := [(7, ''Button'', ''button'')]\<rparr>"

definition new_requests :: "('b, 'm) world_scheme \<Rightarrow> ('b, 'm) world_scheme \<Rightarrow> request list" where
  "new_requests w w' = drop (length (requests w)) (requests w')"

text \<open>Rows of the components table to read from; the second one is private.\<close>

definition example_row :: "int \<Rightarrow> string \<Rightarrow> bool \<Rightarrow> joined_tag component" where
  "example_row i slug public =
     \<lparr> c_id = i, c_component_slug = slug, c_user_id = ''user_1'', c_is_public = public,
       c_user = Some example_user, c_tags = None \<rparr>"

definition example_rows :: tables where
  "example_rows =
     empty_tables\<lparr>component_rows :=
       [example_row 1 ''button'' True, example_row 2 ''card'' False, example_row 3 ''dialog'' True]\<rparr>"

text \<open>
  Stand-ins for the parsing helpers, for running the effects on examples: they know one
  component, one demo that imports it, a demo text that is nothing but that import, and one
  text they cannot parse.
\<close>

definition example_parsers :: parsers where
  "example_parsers =
     \<lparr> extractComponentNames =
         (\<lambda>code. if code = ''export function Button() {}'' then Inr [''Button''] else Inr []),
       extractDependencies =
         (\<lambda>code. if code = ''import {'' then Inl (Error ''Unexpected end of input'') else Inr []),
       extractDemoComponentName =
         (\<lambda>demo. if demo = ''export function ButtonDemo() {}'' then Inr ''ButtonDemo'' else Inr []),
       findInternalDependencies = (\<lambda>deps demoDeps. Inr []),
       removeComponentImports =
         (\<lambda>demo names.
            if demo = ''import { Button } from ./button; export function ButtonDemo() {}''
               \<and> ''Button'' \<in> set names
            then Inr (''export function ButtonDemo() {}'', [''import { Button } from ./button;''])
            else if demo = ''import { Button } from ./button;'' \<and> ''Button'' \<in> set names
            then Inr ([], [''import { Button } from ./button;''])
            else Inr (demo, [])),
       prepareFilesForPreview =
         (\<lambda>code demo. Inr ([(''/Component.tsx'', code), (''/Demo.tsx'', demo)], [])) \<rparr>"

definition example_form_state :: "string \<Rightarrow> string \<Rightarrow> form_state" where
  "example_form_state code demo =
     initial_form_state
       \<lparr> fs_code := code, fs_demo_code := demo,
         fs_componentDependencies :=
           \<lparr> dependencies = [(''react'', ''latest'')], demoDependencies = [], internalDependencies = [],
             componentNames = [''Button''], demoComponentName = [] \<rparr> \<rparr>"


section \<open>Journals\<close>

text \<open>
  The requests that handling one tag makes, in order. A tag with an id: the link with that
  id, and nothing else. A tag without one: first the lookup of its own slug; then nothing
  more (the lookup threw), or the link (the lookup found a row), or the insert of its own
  capitalized name and slug, or that insert and then the link. So there is at least one
  request for every tag, at most one of each kind, and each is about this tag and the
  component at hand.
\<close>

fun link_to :: "int \<Rightarrow> request \<Rightarrow> bool" where
  "link_to componentId (InsertComponentTag c i) = (c = componentId)"
| "link_to componentId rq = False"

fun after_lookup :: "request \<Rightarrow> int \<Rightarrow> request list \<Rightarrow> bool" where
  "after_lookup ins componentId [] = True"
| "after_lookup ins componentId [rq] = (rq = ins \<or> link_to componentId rq)"
| "after_lookup ins componentId [rq, rq'] = (rq = ins \<and> link_to componentId rq')"
| "after_lookup ins componentId (rq # rq' # rq'' # rest) = False"

definition tag_journal :: "externals \<Rightarrow> int \<Rightarrow> tag \<Rightarrow> request list \<Rightarrow> bool" where
  "tag_journal ex componentId t rs \<longleftrightarrow>
     (if truthy_number (tag_id t)
      then (case tag_id t of None \<Rightarrow> False | Some i \<Rightarrow> rs = [InsertComponentTag componentId i])
      else (case rs of
              [] \<Rightarrow> False
            | rq # rest \<Rightarrow>
                rq = SelectTagId (generateSlug ex (tag_name t))
                \<and> after_lookup (InsertTag (capitalizedName ex (tag_name t)) (generateSlug ex (tag_name t)))
                     componentId rest))"

text \<open>
  The handling of a tag went to its end when its last request is not the lookup: the tag
  was linked, or the insert of a new tag was tried.
\<close>

definition handled_to_end :: "request list \<Rightarrow> bool" where
  "handled_to_end rs \<longleftrightarrow> rs \<noteq> [] \<and> operation_of (last rs) \<noteq> LookupTag"

text \<open>
  A client whose three tag operations always return, be it with an error reply: none of
  them throws.
\<close>

definition tag_calls_return :: "'b client \<Rightarrow> bool" where
  "tag_calls_return sb \<longleftrightarrow>
     (\<forall>slug b e. fst (select_tag_id sb slug b) \<noteq> Inl e)
     \<and> (\<forall>name slug b e. fst (insert_tag sb name slug b) \<noteq> Inl e)
     \<and> (\<forall>componentId tagId b e. fst (insert_component_tag sb componentId tagId b) \<noteq> Inl e)"

text \<open>
  \<open>extends w rs w'\<close>: from \<open>w\<close> to \<open>w'\<close> the journal grew by exactly \<open>rs\<close>, the console only
  grew, and nothing but the backend, the journal and the console changed.
\<close>

definition extends :: "('b, 'm) world_scheme \<Rightarrow> request list \<Rightarrow> ('b, 'm) world_scheme \<Rightarrow> bool" where
  "extends w rs w' \<longleftrightarrow>
     requests w' = requests w @ rs \<and> (\<exists>cs. console w' = console w @ cs) \<and> world.more w' = world.more w"

section \<open>Frame and journal lemmas\<close>

subsection \<open>The effect of a call on the page\<close>

lemma extends_refl: "extends w [] w"
  by (simp add: extends_def)

lemma extends_trans: "extends w rs w1 \<Longrightarrow> extends w1 rs' w2 \<Longrightarrow> extends w (rs @ rs') w2"
  by (auto simp: extends_def)

lemma extends_call: "call rq f w = (r, w') \<Longrightarrow> extends w [rq] w'"
  by (auto simp: call_def extends_def split: prod.splits)

lemma extends_console_error: "extends w [] (console_error label d w)"
  by (auto simp: console_error_def extends_def)

lemma extends_alerts: "extends w rs w' \<Longrightarrow> alerts w' = alerts w"
  by (cases w, cases w') (simp add: extends_def)

lemma extends_isLoading: "extends w rs w' \<Longrightarrow> isLoading w' = isLoading w"
  by (cases w, cases w') (simp add: extends_def)

lemma extends_isSuccessDialogOpen: "extends w rs w' \<Longrightarrow> isSuccessDialogOpen w' = isSuccessDialogOpen w"
  by (cases w, cases w') (simp add: extends_def)

lemma extends_requests: "extends w rs w' \<Longrightarrow> requests w' = requests w @ rs"
  by (simp add: extends_def)

subsection \<open>The requests of addTagsToComponent\<close>

lemma resolveTagId_extends:
  assumes "resolveTagId sb ex t w = (r, w')"
  shows "\<exists>rs. extends w rs w' \<and>
           ((truthy_number (tag_id t) \<and> rs = [] \<and> r = Inr (tag_id t)) \<or>
            (\<not> truthy_number (tag_id t) \<and> rs = [SelectTagId (generateSlug ex (tag_name t))]
               \<and> ((\<exists>e. r = Inl e) \<or> (\<exists>i. r = Inr (Some i)))) \<or>
            (\<not> truthy_number (tag_id t) \<and>
             rs = [SelectTagId (generateSlug ex (tag_name t)),
                   InsertTag (capitalizedName ex (tag_name t)) (generateSlug ex (tag_name t))]))"
proof (cases "truthy_number (tag_id t)")
  case True
  with assms have "w' = w" "r = Inr (tag_id t)" by (simp_all add: resolveTagId_def)
  then show ?thesis using True extends_refl[of w] by (intro exI[of _ "[]"]) simp
next
  case False
  let ?slug = "generateSlug ex (tag_name t)"
  obtain r1 w1 where c1: "call (SelectTagId ?slug) (select_tag_id sb ?slug) w = (r1, w1)"
    by (cases "call (SelectTagId ?slug) (select_tag_id sb ?slug) w")
  have e1: "extends w [SelectTagId ?slug] w1" by (rule extends_call[OF c1])
  show ?thesis
  proof (cases "\<exists>existing. r1 = Inr existing \<and> data existing = None")
    case no_insert: False
    with assms False c1 have "w' = w1" and "(\<exists>e. r = Inl e) \<or> (\<exists>i. r = Inr (Some i))"
      by (auto simp: resolveTagId_def Let_def split: sum.splits option.splits)
    with e1 False show ?thesis by (intro exI[of _ "[SelectTagId ?slug]"]) simp
  next
    case True
    then obtain existing where r1: "r1 = Inr existing" "data existing = None" by blast
    let ?ins = "InsertTag (capitalizedName ex (tag_name t)) ?slug"
    obtain r2 w2 where c2: "call ?ins (insert_tag sb (capitalizedName ex (tag_name t)) ?slug) w1 = (r2, w2)"
      by (cases "call ?ins (insert_tag sb (capitalizedName ex (tag_name t)) ?slug) w1")
    have e2: "extends w ([SelectTagId ?slug] @ [?ins]) w2"
      by (rule extends_trans[OF e1 extends_call[OF c2]])
    have "extends w2 [] w'"
      using assms False c1 r1 c2 extends_console_error[of w2] extends_refl[of w2]
      by (auto simp: resolveTagId_def Let_def split: sum.splits option.splits new_tag.splits)
    from extends_trans[OF e2 this] False show ?thesis
      by (intro exI[of _ "[SelectTagId ?slug, ?ins]"]) simp
  qed
qed

lemma linkTag_extends:
  assumes "linkTag sb componentId tagId w = (r, w')"
  shows "extends w [InsertComponentTag componentId tagId] w'"
proof -
  obtain r1 w1 where c1:
    "call (InsertComponentTag componentId tagId) (insert_component_tag sb componentId tagId) w = (r1, w1)"
    by (cases "call (InsertComponentTag componentId tagId) (insert_component_tag sb componentId tagId) w")
  have "extends w1 [] w'"
    using assms c1 extends_console_error[of w1] extends_refl[of w1]
    by (auto simp: linkTag_def split: sum.splits option.splits)
  from extends_trans[OF extends_call[OF c1] this] show ?thesis by simp
qed

lemma addTag_extends:
  assumes "addTag sb ex componentId t w = (r, w')"
  shows "\<exists>rs. extends w rs w' \<and> tag_journal ex componentId t rs
           \<and> (\<forall>u. r = Inr u \<longrightarrow> handled_to_end rs)"
proof -
  let ?sel = "SelectTagId (generateSlug ex (tag_name t))"
  let ?ins = "InsertTag (capitalizedName ex (tag_name t)) (generateSlug ex (tag_name t))"
  obtain r1 w1 where c1: "resolveTagId sb ex t w = (r1, w1)"
    by (cases "resolveTagId sb ex t w")
  from resolveTagId_extends[OF c1] obtain rs where
    e1: "extends w rs w1" and
    rs: "(truthy_number (tag_id t) \<and> rs = [] \<and> r1 = Inr (tag_id t)) \<or>
         (\<not> truthy_number (tag_id t) \<and> rs = [?sel]
            \<and> ((\<exists>e. r1 = Inl e) \<or> (\<exists>i. r1 = Inr (Some i)))) \<or>
         (\<not> truthy_number (tag_id t) \<and> rs = [?sel, ?ins])"
    by blast
  show ?thesis
  proof (cases "\<exists>tagId. r1 = Inr (Some tagId)")
    case True
    then obtain tagId where r1: "r1 = Inr (Some tagId)" by blast
    with assms c1 have "linkTag sb componentId tagId w1 = (r, w')"
      by (simp add: addTag_def)
    from extends_trans[OF e1 linkTag_extends[OF this]]
    have e: "extends w (rs @ [InsertComponentTag componentId tagId]) w'" .
    have j: "tag_journal ex componentId t (rs @ [InsertComponentTag componentId tagId])"
    proof (cases "truthy_number (tag_id t)")
      case True
      with rs r1 have "rs = []" "tag_id t = Some tagId" by auto
      with True show ?thesis by (simp add: tag_journal_def)
    next
      case False
      with rs show ?thesis by (auto simp: tag_journal_def)
    qed
    have h: "handled_to_end (rs @ [InsertComponentTag componentId tagId])"
      by (simp add: handled_to_end_def)
    from e j h show ?thesis by blast
  next
    case False
    with assms c1 have w': "w' = w1" and r: "r = (case r1 of Inl e \<Rightarrow> Inl e | Inr v \<Rightarrow> Inr ())"
      by (auto simp: addTag_def split: sum.splits option.splits)
    from False rs have nt: "\<not> truthy_number (tag_id t)"
      by (auto simp: truthy_number_def split: option.splits)
    from rs nt False have shape: "(rs = [?sel] \<and> (\<exists>e. r1 = Inl e)) \<or> rs = [?sel, ?ins]"
      by auto
    then have j: "tag_journal ex componentId t rs"
      using nt by (auto simp: tag_journal_def)
    have h: "\<forall>u. r = Inr u \<longrightarrow> handled_to_end rs"
      using shape r by (auto simp: handled_to_end_def)
    from e1 w' j h show ?thesis by blast
  qed
qed

lemma addTagsToComponent_extends:
  assumes "addTagsToComponent sb ex componentId ts w = (r, w')"
  shows "\<exists>segs. extends w (concat segs) w' \<and> length segs \<le> length ts
           \<and> list_all2 (tag_journal ex componentId) (take (length segs) ts) segs
           \<and> (\<forall>u. r = Inr u \<longrightarrow> length segs = length ts \<and> list_all handled_to_end segs)"
  using assms
proof (induction ts arbitrary: w)
  case Nil
  then show ?case using extends_refl[of w] by (intro exI[of _ "[]"]) auto
next
  case (Cons t ts)
  obtain r1 w1 where c1: "addTag sb ex componentId t w = (r1, w1)"
    by (cases "addTag sb ex componentId t w")
  from addTag_extends[OF c1] obtain rs where e1: "extends w rs w1"
    and j: "tag_journal ex componentId t rs" and h: "\<forall>u. r1 = Inr u \<longrightarrow> handled_to_end rs"
    by blast
  show ?case
  proof (cases r1)
    case (Inl e)
    with Cons.prems c1 have "w' = w1" "r = Inl e" by auto
    with e1 j show ?thesis by (intro exI[of _ "[rs]"]) auto
  next
    case (Inr u)
    with Cons.prems c1 have "addTagsToComponent sb ex componentId ts w1 = (r, w')" by simp
    from Cons.IH[OF this] obtain segs where
      e2: "extends w1 (concat segs) w'" and len: "length segs \<le> length ts"
      and all: "list_all2 (tag_journal ex componentId) (take (length segs) ts) segs"
      and full: "\<forall>u. r = Inr u \<longrightarrow> length segs = length ts \<and> list_all handled_to_end segs"
      by blast
    from h Inr have "handled_to_end rs" by simp
    with extends_trans[OF e1 e2] len all full j show ?thesis
      by (intro exI[of _ "rs # segs"]) auto
  qed
qed

text \<open>The shapes a tag's requests can have, and what follows from them.\<close>

lemma after_lookup_shapes:
  assumes "after_lookup ins componentId rest"
  shows "rest = [] \<or> rest = [ins] \<or> (\<exists>i. rest = [InsertComponentTag componentId i])
       \<or> (\<exists>i. rest = [ins, InsertComponentTag componentId i])"
proof (cases rest)
  case Nil
  then show ?thesis by simp
next
  case (Cons rq rest1)
  note c1 = Cons
  show ?thesis
  proof (cases rest1)
    case Nil
    with c1 assms have "rq = ins \<or> link_to componentId rq" by simp
    then show ?thesis using c1 Nil by (cases rq) auto
  next
    case (Cons rq' rest2)
    note c2 = Cons
    show ?thesis
    proof (cases rest2)
      case Nil
      with c1 c2 assms have "rq = ins" "link_to componentId rq'" by simp_all
      then show ?thesis using c1 c2 Nil by (cases rq') auto
    next
      case (Cons rq'' rest3)
      with c1 c2 assms show ?thesis by simp
    qed
  qed
qed

lemma tag_journal_shapes:
  assumes "tag_journal ex componentId t rs"
  shows "(\<exists>i. rs = [InsertComponentTag componentId i])
       \<or> (\<exists>rest. rs = SelectTagId (generateSlug ex (tag_name t)) # rest
            \<and> (rest = []
               \<or> rest = [InsertTag (capitalizedName ex (tag_name t)) (generateSlug ex (tag_name t))]
               \<or> (\<exists>i. rest = [InsertComponentTag componentId i])
               \<or> (\<exists>i. rest = [InsertTag (capitalizedName ex (tag_name t)) (generateSlug ex (tag_name t)),
                               InsertComponentTag componentId i])))"
proof (cases "truthy_number (tag_id t)")
  case True
  with assms show ?thesis
    by (auto simp: tag_journal_def split: option.splits)
next
  case False
  with assms obtain rest where
    rs: "rs = SelectTagId (generateSlug ex (tag_name t)) # rest"
    and al: "after_lookup (InsertTag (capitalizedName ex (tag_name t)) (generateSlug ex (tag_name t)))
               componentId rest"
    by (cases rs) (auto simp: tag_journal_def)
  from after_lookup_shapes[OF al] rs show ?thesis by blast
qed

lemma tag_journal_once_each:
  assumes "tag_journal ex componentId t rs"
  shows "rs \<noteq> [] \<and> distinct (map operation_of rs)"
  using tag_journal_shapes[OF assms] by auto

subsection \<open>The requests of the submission\<close>

lemma uploadCodeAndDemo_extends:
  assumes "uploadCodeAndDemo sb first cl d w = (r, w')"
  shows "extends w [UploadToStorage (fd_component_slug d @ ''-code.tsx'') (fd_code d),
                    UploadToStorage (fd_component_slug d @ ''-demo.tsx'') (cl_demoCode cl)] w'"
proof -
  let ?c = "fd_component_slug d @ ''-code.tsx''" and ?d = "fd_component_slug d @ ''-demo.tsx''"
  obtain p w1 where c1: "call (UploadToStorage ?c (fd_code d)) (uploadToStorage sb ?c (fd_code d)) w = (p, w1)"
    by (cases "call (UploadToStorage ?c (fd_code d)) (uploadToStorage sb ?c (fd_code d)) w")
  obtain q w2 where c2:
    "call (UploadToStorage ?d (cl_demoCode cl)) (uploadToStorage sb ?d (cl_demoCode cl)) w1 = (q, w2)"
    by (cases "call (UploadToStorage ?d (cl_demoCode cl)) (uploadToStorage sb ?d (cl_demoCode cl)) w1")
  from assms c1 c2 have "w' = w2" by (simp add: uploadCodeAndDemo_def Let_def)
  with extends_trans[OF extends_call[OF c1] extends_call[OF c2]] show ?thesis by simp
qed

lemma uploadCodeAndDemo_urls:
  assumes "uploadCodeAndDemo sb first cl d w = (Inr (codeUrl, demoCodeUrl), w')"
  shows "\<exists>b1. uploadToStorage sb (fd_component_slug d @ ''-code.tsx'') (fd_code d) (backend w) = (Inr codeUrl, b1)
           \<and> fst (uploadToStorage sb (fd_component_slug d @ ''-demo.tsx'') (cl_demoCode cl) b1) = Inr demoCodeUrl"
  using assms
  by (auto simp: uploadCodeAndDemo_def Let_def call_def Promise_all2_def split: prod.splits sum.splits)

lemma uploadPreview_extends:
  assumes "uploadPreview sb d w = (r, w')"
  shows "\<exists>rs. extends w rs w' \<and> length rs \<le> 1 \<and> list_all (\<lambda>rq. operation_of rq = StorePreview) rs"
proof (cases "fd_preview_url d")
  case None
  with assms have "w' = w" by (simp add: uploadPreview_def)
  then show ?thesis using extends_refl[of w] by (intro exI[of _ "[]"]) simp
next
  case (Some f)
  with assms have "call (UploadPreviewImage f (fd_component_slug d))
                        (uploadPreviewImage sb f (fd_component_slug d)) w = (r, w')"
    by (simp add: uploadPreview_def)
  from extends_call[OF this] show ?thesis
    by (intro exI[of _ "[UploadPreviewImage f (fd_component_slug d)]"]) simp
qed

lemma insertAndTag_journal:
  assumes "insertAndTag sb ex cl cdata w = (r, w')"
  shows "\<exists>w5 segs. extends w (AddComponent cdata # concat segs) w5
           \<and> (w' = w5 \<or> (w' = w5\<lparr>isSuccessDialogOpen := True\<rparr> \<and> r = Inr ()))
           \<and> (\<exists>componentId. length segs \<le> length (submittedTags cl)
                  \<and> list_all2 (tag_journal ex componentId) (take (length segs) (submittedTags cl)) segs)
           \<and> (isSuccessDialogOpen w' \<and> \<not> isSuccessDialogOpen w \<longrightarrow>
                  length segs = length (submittedTags cl) \<and> list_all handled_to_end segs)"
proof -
  obtain r4 w4 where c4: "call (AddComponent cdata) (addComponent sb cdata) w = (r4, w4)"
    by (cases "call (AddComponent cdata) (addComponent sb cdata) w")
  have e4: "extends w [AddComponent cdata] w4" by (rule extends_call[OF c4])
  show ?thesis
  proof (cases "\<exists>inserted_id validTags. r4 = Inr (Some inserted_id) \<and> cl_validTags cl = Some validTags")
    case False
    with assms c4 have "w' = w4"
      by (auto simp: insertAndTag_def split: sum.splits option.splits)
    with e4 extends_isSuccessDialogOpen[OF e4] show ?thesis
      by (intro exI[of _ w4] exI[of _ "[]"]) auto
  next
    case True
    then obtain inserted_id validTags where
      r4: "r4 = Inr (Some inserted_id)" and vt: "cl_validTags cl = Some validTags" by blast
    from vt have st: "submittedTags cl = filter (\<lambda>t. truthy_string (tag_slug t)) validTags"
      by (simp add: submittedTags_def)
    let ?ts = "filter (\<lambda>t. truthy_string (tag_slug t)) validTags"
    obtain r5 w5 where c5: "addTagsToComponent sb ex inserted_id ?ts w4 = (r5, w5)"
      by (cases "addTagsToComponent sb ex inserted_id ?ts w4")
    from addTagsToComponent_extends[OF c5] obtain segs where
      e5: "extends w4 (concat segs) w5" and len: "length segs \<le> length ?ts"
      and all: "list_all2 (tag_journal ex inserted_id) (take (length segs) ?ts) segs"
      and full: "\<forall>u. r5 = Inr u \<longrightarrow> length segs = length ?ts \<and> list_all handled_to_end segs"
      by blast
    have w': "w' = w5 \<or> (w' = w5\<lparr>isSuccessDialogOpen := True\<rparr> \<and> r = Inr ())"
      using assms c4 r4 vt c5 by (auto simp: insertAndTag_def split: sum.splits)
    note e45 = extends_trans[OF e4 e5]
    have f: "isSuccessDialogOpen w' \<and> \<not> isSuccessDialogOpen w \<longrightarrow>
               length segs = length (submittedTags cl) \<and> list_all handled_to_end segs"
    proof (cases r5)
      case (Inl e)
      with assms c4 r4 vt c5 have "w' = w5" by (simp add: insertAndTag_def)
      with extends_isSuccessDialogOpen[OF e45] show ?thesis by simp
    next
      case (Inr u)
      with full st show ?thesis by simp
    qed
    from e45 w' len all st f show ?thesis
      by (intro exI[of _ w5] exI[of _ segs]) auto
  qed
qed

lemma submitBody_journal:
  assumes "submitBody sb ex first cl uid d w = (r, w')"
  shows "\<exists>w5 head segs.
           extends w (UploadToStorage (fd_component_slug d @ ''-code.tsx'') (fd_code d)
                      # UploadToStorage (fd_component_slug d @ ''-demo.tsx'') (cl_demoCode cl)
                      # head @ concat segs) w5
           \<and> (w' = w5 \<or> (w' = w5\<lparr>isSuccessDialogOpen := True\<rparr> \<and> r = Inr ()))
           \<and> distinct (map operation_of head)
           \<and> list_all (\<lambda>rq. operation_of rq = StorePreview \<or> operation_of rq = CreateComponent) head
           \<and> (\<exists>componentId. length segs \<le> length (submittedTags cl)
                  \<and> list_all2 (tag_journal ex componentId) (take (length segs) (submittedTags cl)) segs)
           \<and> (isSuccessDialogOpen w' \<and> \<not> isSuccessDialogOpen w \<longrightarrow>
                  length segs = length (submittedTags cl) \<and> list_all handled_to_end segs)"
proof -
  let ?ups = "[UploadToStorage (fd_component_slug d @ ''-code.tsx'') (fd_code d),
               UploadToStorage (fd_component_slug d @ ''-demo.tsx'') (cl_demoCode cl)]"
  obtain r2 w2 where c2: "uploadCodeAndDemo sb first cl d w = (r2, w2)"
    by (cases "uploadCodeAndDemo sb first cl d w")
  have e2: "extends w ?ups w2" by (rule uploadCodeAndDemo_extends[OF c2])
  show ?thesis
  proof (cases r2)
    case (Inl e)
    with assms c2 have "w' = w2" by (simp add: submitBody_def)
    with e2 extends_isSuccessDialogOpen[OF e2] show ?thesis
      by (intro exI[of _ w2] exI[of _ "[]"]) auto
  next
    case (Inr urls)
    obtain codeUrl demoCodeUrl where urls: "urls = (codeUrl, demoCodeUrl)" by (cases urls)
    obtain r3 w3 where c3: "uploadPreview sb d w2 = (r3, w3)"
      by (cases "uploadPreview sb d w2")
    from uploadPreview_extends[OF c3] obtain rs3 where
      e3: "extends w2 rs3 w3" and l3: "length rs3 \<le> 1"
      and a3: "list_all (\<lambda>rq. operation_of rq = StorePreview) rs3"
      by blast
    have d3: "distinct (map operation_of rs3)"
      using l3 by (cases rs3) auto
    have e23: "extends w (?ups @ rs3) w3" by (rule extends_trans[OF e2 e3])
    show ?thesis
    proof (cases r3)
      case (Inl e)
      with assms c2 Inr urls c3 have "w' = w3" by (simp add: submitBody_def)
      with e23 d3 a3 extends_isSuccessDialogOpen[OF e23] show ?thesis
        by (intro exI[of _ w3] exI[of _ rs3] exI[of _ "[]"]) (auto simp: list_all_iff)
    next
      case inr3: (Inr previewImageUrl)
      let ?cdata = "buildComponentData ex cl d uid codeUrl demoCodeUrl previewImageUrl"
      from assms c2 Inr urls c3 inr3 have "insertAndTag sb ex cl ?cdata w3 = (r, w')"
        by (simp add: submitBody_def)
      from insertAndTag_journal[OF this] obtain w5 segs where
        e5: "extends w3 (AddComponent ?cdata # concat segs) w5"
        and w': "w' = w5 \<or> (w' = w5\<lparr>isSuccessDialogOpen := True\<rparr> \<and> r = Inr ())"
        and segs: "\<exists>componentId. length segs \<le> length (submittedTags cl)
                  \<and> list_all2 (tag_journal ex componentId) (take (length segs) (submittedTags cl)) segs"
        and full: "isSuccessDialogOpen w' \<and> \<not> isSuccessDialogOpen w3 \<longrightarrow>
                  length segs = length (submittedTags cl) \<and> list_all handled_to_end segs"
        by blast
      from full extends_isSuccessDialogOpen[OF e23]
      have full': "isSuccessDialogOpen w' \<and> \<not> isSuccessDialogOpen w \<longrightarrow>
                  length segs = length (submittedTags cl) \<and> list_all handled_to_end segs"
        by simp
      have "extends w (?ups @ rs3 @ AddComponent ?cdata # concat segs) w5"
        using extends_trans[OF e23 e5] by simp
      moreover have "distinct (map operation_of (rs3 @ [AddComponent ?cdata]))"
        using d3 a3 by (auto simp: list_all_iff)
      moreover have "list_all (\<lambda>rq. operation_of rq = StorePreview \<or> operation_of rq = CreateComponent)
                       (rs3 @ [AddComponent ?cdata])"
        using a3 by (auto simp: list_all_iff)
      ultimately show ?thesis using w' segs full'
        by (intro exI[of _ w5] exI[of _ "rs3 @ [AddComponent ?cdata]"] exI[of _ segs]) simp
    qed
  qed
qed

subsection \<open>The guards and the outcome of onSubmit\<close>

lemma errorMessage_prefix:
  "take 44 (errorMessage e) = ''An error occurred while adding the component''"
  by (cases e) (simp_all add: errorMessage_def)

lemma authenticated_None_iff:
  "authenticated u = None \<longleftrightarrow>
     (u = None \<or> (\<exists>v. u = Some v \<and> (user_id v = None \<or> user_id v = Some [])))"
  by (auto simp: authenticated_def truthy_string_def split: option.splits)

lemma authenticated_Some:
  "u = Some v \<Longrightarrow> user_id v = Some uid \<Longrightarrow> uid \<noteq> [] \<Longrightarrow> authenticated u = Some uid"
  by (simp add: authenticated_def truthy_string_def)

lemma onSubmit_guard:
  assumes "authenticated (cl_user cl) = Some uid"
    and "\<exists>slug \<in> set (Object_values (internalDependencies (cl_componentDependencies cl))). slug = []"
  shows "onSubmit sb ex first cl d w =
           alert ''Please specify the slug for all internal dependencies''
             (console_error ''Internal dependencies not specified'' NoDetail w)"
  using assms by (simp add: onSubmit_def)

lemma onSubmit_raised:
  assumes "authenticated (cl_user cl) = Some uid"
    and "\<forall>slug \<in> set (Object_values (internalDependencies (cl_componentDependencies cl))). slug \<noteq> []"
    and "submitBody sb ex first cl uid d (w\<lparr>isLoading := True\<rparr>) = (Inl e, w1)"
  shows "onSubmit sb ex first cl d w =
           (alert (errorMessage e) (console_error ''Error adding component:'' (Caught e) w1))
             \<lparr>isLoading := False\<rparr>"
  using assms by (simp add: onSubmit_def)

lemma onSubmit_returned:
  assumes "authenticated (cl_user cl) = Some uid"
    and "\<forall>slug \<in> set (Object_values (internalDependencies (cl_componentDependencies cl))). slug \<noteq> []"
    and "submitBody sb ex first cl uid d (w\<lparr>isLoading := True\<rparr>) = (Inr v, w1)"
  shows "onSubmit sb ex first cl d w = w1\<lparr>isLoading := False\<rparr>"
  using assms by (simp add: onSubmit_def)

lemma submitBody_frame:
  assumes "submitBody sb ex first cl uid d w = (r, w')"
  shows "alerts w' = alerts w \<and> isLoading w' = isLoading w
       \<and> (\<exists>rest. requests w' = requests w
                     @ UploadToStorage (fd_component_slug d @ ''-code.tsx'') (fd_code d)
                     # UploadToStorage (fd_component_slug d @ ''-demo.tsx'') (cl_demoCode cl) # rest)
       \<and> (\<forall>e. r = Inl e \<longrightarrow> isSuccessDialogOpen w' = isSuccessDialogOpen w)"
proof -
  from submitBody_journal[OF assms] obtain w5 rest where
    e: "extends w (UploadToStorage (fd_component_slug d @ ''-code.tsx'') (fd_code d)
                      # UploadToStorage (fd_component_slug d @ ''-demo.tsx'') (cl_demoCode cl) # rest) w5"
    and w': "w' = w5 \<or> (w' = w5\<lparr>isSuccessDialogOpen := True\<rparr> \<and> r = Inr ())"
    by blast
  from w' extends_alerts[OF e] extends_isLoading[OF e] extends_requests[OF e]
       extends_isSuccessDialogOpen[OF e]
  show ?thesis by auto
qed

subsection \<open>Where the try block raises\<close>

lemma insertAndTag_raises_iff:
  "fst (insertAndTag sb ex cl cdata w) = Inl e \<longleftrightarrow>
     fst (call (AddComponent cdata) (addComponent sb cdata) w) = Inl e
     \<or> (\<exists>inserted_id validTags.
          fst (call (AddComponent cdata) (addComponent sb cdata) w) = Inr (Some inserted_id)
          \<and> cl_validTags cl = Some validTags
          \<and> fst (addTagsToComponent sb ex inserted_id (filter (\<lambda>t. truthy_string (tag_slug t)) validTags)
                    (snd (call (AddComponent cdata) (addComponent sb cdata) w))) = Inl e)"
  by (auto simp: insertAndTag_def split: prod.splits sum.splits option.splits)

lemma submitBody_raises_iff:
  "fst (submitBody sb ex first cl uid d w) = Inl e \<longleftrightarrow>
     fst (uploadCodeAndDemo sb first cl d w) = Inl e
     \<or> (\<exists>codeUrl demoCodeUrl.
          fst (uploadCodeAndDemo sb first cl d w) = Inr (codeUrl, demoCodeUrl)
          \<and> (fst (uploadPreview sb d (snd (uploadCodeAndDemo sb first cl d w))) = Inl e
             \<or> (\<exists>previewImageUrl.
                  fst (uploadPreview sb d (snd (uploadCodeAndDemo sb first cl d w))) = Inr previewImageUrl
                  \<and> fst (insertAndTag sb ex cl
                           (buildComponentData ex cl d uid codeUrl demoCodeUrl previewImageUrl)
                           (snd (uploadPreview sb d (snd (uploadCodeAndDemo sb first cl d w))))) = Inl e)))"
  by (auto simp: submitBody_def split: prod.splits sum.splits)

subsection \<open>A submission that opens the success dialog\<close>

lemma tag_journal_no_component_insert:
  "tag_journal ex componentId t rs \<Longrightarrow> list_all (\<lambda>rq. operation_of rq \<noteq> CreateComponent) rs"
  using tag_journal_shapes[of ex componentId t rs] by auto

lemma segments_no_component_insert:
  assumes "list_all2 (tag_journal ex componentId) ts segs"
  shows "list_all (\<lambda>rq. operation_of rq \<noteq> CreateComponent) (concat segs)"
  using assms
  by (induction ts segs rule: list_all2_induct) (auto dest: tag_journal_no_component_insert)

lemma insertAndTag_opens_dialog:
  assumes "insertAndTag sb ex cl cdata w = (r, w')"
    and "\<not> isSuccessDialogOpen w" and "isSuccessDialogOpen w'"
  shows "\<exists>tagrs. requests w' = requests w @ AddComponent cdata # tagrs
           \<and> list_all (\<lambda>rq. operation_of rq \<noteq> CreateComponent) tagrs"
proof -
  from insertAndTag_journal[OF assms(1)] obtain w5 segs componentId where
    e: "extends w (AddComponent cdata # concat segs) w5"
    and w': "w' = w5 \<or> (w' = w5\<lparr>isSuccessDialogOpen := True\<rparr> \<and> r = Inr ())"
    and all: "list_all2 (tag_journal ex componentId) (take (length segs) (submittedTags cl)) segs"
    by blast
  from w' extends_requests[OF e] have "requests w' = requests w @ AddComponent cdata # concat segs"
    by auto
  with segments_no_component_insert[OF all] show ?thesis by blast
qed

lemma submitBody_opens_dialog:
  assumes "submitBody sb ex first cl uid d w = (r, w')"
    and "\<not> isSuccessDialogOpen w" and "isSuccessDialogOpen w'"
  shows "\<exists>codeUrl demoCodeUrl previewImageUrl b1 previews tagrs.
           uploadToStorage sb (fd_component_slug d @ ''-code.tsx'') (fd_code d) (backend w) = (Inr codeUrl, b1)
         \<and> fst (uploadToStorage sb (fd_component_slug d @ ''-demo.tsx'') (cl_demoCode cl) b1) = Inr demoCodeUrl
         \<and> requests w' = requests w
              @ [UploadToStorage (fd_component_slug d @ ''-code.tsx'') (fd_code d),
                 UploadToStorage (fd_component_slug d @ ''-demo.tsx'') (cl_demoCode cl)]
              @ previews
              @ AddComponent (buildComponentData ex cl d uid codeUrl demoCodeUrl previewImageUrl) # tagrs
         \<and> list_all (\<lambda>rq. operation_of rq \<noteq> CreateComponent) (previews @ tagrs)"
proof -
  obtain r2 w2 where c2: "uploadCodeAndDemo sb first cl d w = (r2, w2)"
    by (cases "uploadCodeAndDemo sb first cl d w")
  note e2 = uploadCodeAndDemo_extends[OF c2]
  have s2: "\<not> isSuccessDialogOpen w2"
    using extends_isSuccessDialogOpen[OF e2] assms(2) by simp
  obtain r3 w3 where c3: "uploadPreview sb d w2 = (r3, w3)"
    by (cases "uploadPreview sb d w2")
  from uploadPreview_extends[OF c3] obtain previews where
    e3: "extends w2 previews w3" and a3: "list_all (\<lambda>rq. operation_of rq = StorePreview) previews"
    by blast
  have s3: "\<not> isSuccessDialogOpen w3"
    using extends_isSuccessDialogOpen[OF e3] s2 by simp
  have "\<exists>codeUrl demoCodeUrl. r2 = Inr (codeUrl, demoCodeUrl)"
  proof (cases r2)
    case (Inl e)
    with assms(1) c2 have "w' = w2" by (simp add: submitBody_def)
    with s2 assms(3) show ?thesis by simp
  next
    case (Inr urls)
    then show ?thesis by (cases urls) simp
  qed
  then obtain codeUrl demoCodeUrl where r2: "r2 = Inr (codeUrl, demoCodeUrl)" by blast
  have "\<exists>previewImageUrl. r3 = Inr previewImageUrl"
  proof (cases r3)
    case (Inl e)
    with assms(1) c2 r2 c3 have "w' = w3" by (simp add: submitBody_def)
    with s3 assms(3) show ?thesis by simp
  next
    case (Inr url)
    then show ?thesis by simp
  qed
  then obtain previewImageUrl where r3: "r3 = Inr previewImageUrl" by blast
  let ?cdata = "buildComponentData ex cl d uid codeUrl demoCodeUrl previewImageUrl"
  from assms(1) c2 r2 c3 r3 have "insertAndTag sb ex cl ?cdata w3 = (r, w')"
    by (simp add: submitBody_def)
  from insertAndTag_opens_dialog[OF this s3 assms(3)] obtain tagrs where
    rq: "requests w' = requests w3 @ AddComponent ?cdata # tagrs"
    and nt: "list_all (\<lambda>rq. operation_of rq \<noteq> CreateComponent) tagrs"
    by blast
  from uploadCodeAndDemo_urls[OF c2[unfolded r2]] obtain b1 where
    u: "uploadToStorage sb (fd_component_slug d @ ''-code.tsx'') (fd_code d) (backend w) = (Inr codeUrl, b1)"
       "fst (uploadToStorage sb (fd_component_slug d @ ''-demo.tsx'') (cl_demoCode cl) b1) = Inr demoCodeUrl"
    by blast
  have "requests w' = requests w
              @ [UploadToStorage (fd_component_slug d @ ''-code.tsx'') (fd_code d),
                 UploadToStorage (fd_component_slug d @ ''-demo.tsx'') (cl_demoCode cl)]
              @ previews @ AddComponent ?cdata # tagrs"
    using rq extends_requests[OF e2] extends_requests[OF e3] by simp
  moreover have "list_all (\<lambda>rq. operation_of rq \<noteq> CreateComponent) (previews @ tagrs)"
    using a3 nt by (auto simp: list_all_iff)
  ultimately show ?thesis using u by blast
qed

lemma onSubmit_opens_dialog:
  assumes "\<not> isSuccessDialogOpen w" and "isSuccessDialogOpen (onSubmit sb ex first cl d w)"
  shows "\<exists>uid r w1. authenticated (cl_user cl) = Some uid
           \<and> submitBody sb ex first cl uid d (w\<lparr>isLoading := True\<rparr>) = (r, w1)
           \<and> isSuccessDialogOpen w1 \<and> requests (onSubmit sb ex first cl d w) = requests w1"
proof (cases "authenticated (cl_user cl)")
  case None
  with assms show ?thesis by (simp add: onSubmit_def alert_def console_error_def)
next
  case (Some uid)
  show ?thesis
  proof (cases "\<exists>slug \<in> set (Object_values (internalDependencies (cl_componentDependencies cl))). slug = []")
    case True
    from onSubmit_guard[OF Some True, of sb ex first d w] assms show ?thesis
      by (simp add: alert_def console_error_def)
  next
    case False
    then have g: "\<forall>slug \<in> set (Object_values (internalDependencies (cl_componentDependencies cl))). slug \<noteq> []"
      by blast
    obtain r w1 where b: "submitBody sb ex first cl uid d (w\<lparr>isLoading := True\<rparr>) = (r, w1)"
      by (cases "submitBody sb ex first cl uid d (w\<lparr>isLoading := True\<rparr>)")
    have "isSuccessDialogOpen w1 \<and> requests (onSubmit sb ex first cl d w) = requests w1"
    proof (cases r)
      case (Inl e)
      from onSubmit_raised[OF Some g b[unfolded Inl]] assms(2) show ?thesis
        by (simp add: alert_def console_error_def)
    next
      case (Inr v)
      from onSubmit_returned[OF Some g b[unfolded Inr]] assms(2) show ?thesis
        by simp
    qed
    with Some b show ?thesis by blast
  qed
qed

lemma authenticated_SomeD:
  "authenticated u = Some uid \<Longrightarrow> \<exists>v. u = Some v \<and> user_id v = Some uid \<and> uid \<noteq> []"
  by (auto simp: authenticated_def truthy_string_def split: option.splits if_splits)

subsection \<open>Kinds of operation in the journal\<close>

lemma tag_journal_operations:
  assumes "tag_journal ex componentId t rs"
  shows "list_all (\<lambda>rq. operation_of rq = LookupTag \<or> operation_of rq = CreateTag
                        \<or> operation_of rq = LinkTag) rs"
  using tag_journal_shapes[OF assms] by auto

lemma segments_operations:
  assumes "list_all2 (tag_journal ex componentId) ts segs"
  shows "list_all (\<lambda>rq. operation_of rq = LookupTag \<or> operation_of rq = CreateTag
                        \<or> operation_of rq = LinkTag) (concat segs)"
  using assms
  by (induction ts segs rule: list_all2_induct) (auto dest: tag_journal_operations)

lemma segments_no_delete:
  assumes "list_all2 (tag_journal ex componentId) ts segs"
  shows "list_all (\<lambda>rq. operation_of rq \<noteq> RemoveLike) (concat segs)"
  unfolding list_all_iff
proof (intro ballI)
  fix rq
  assume "rq \<in> set (concat segs)"
  with segments_operations[OF assms]
  have "operation_of rq = LookupTag \<or> operation_of rq = CreateTag \<or> operation_of rq = LinkTag"
    unfolding list_all_iff by blast
  then show "operation_of rq \<noteq> RemoveLike" by auto
qed

lemma onSubmit_requests:
  "requests (onSubmit sb ex first cl d w) = requests w
   \<or> (\<exists>uid. requests (onSubmit sb ex first cl d w)
               = requests (snd (submitBody sb ex first cl uid d (w\<lparr>isLoading := True\<rparr>))))"
proof (cases "authenticated (cl_user cl)")
  case None
  then show ?thesis by (simp add: onSubmit_def alert_def console_error_def)
next
  case (Some uid)
  show ?thesis
  proof (cases "\<exists>slug \<in> set (Object_values (internalDependencies (cl_componentDependencies cl))). slug = []")
    case True
    from onSubmit_guard[OF Some True, of sb ex first d w] show ?thesis
      by (simp add: alert_def console_error_def)
  next
    case False
    then have g: "\<forall>slug \<in> set (Object_values (internalDependencies (cl_componentDependencies cl))). slug \<noteq> []"
      by blast
    obtain r w1 where b: "submitBody sb ex first cl uid d (w\<lparr>isLoading := True\<rparr>) = (r, w1)"
      by (cases "submitBody sb ex first cl uid d (w\<lparr>isLoading := True\<rparr>)")
    have "requests (onSubmit sb ex first cl d w) = requests w1"
    proof (cases r)
      case (Inl e)
      from onSubmit_raised[OF Some g b[unfolded Inl]] show ?thesis
        by (simp add: alert_def console_error_def)
    next
      case (Inr v)
      from onSubmit_returned[OF Some g b[unfolded Inr]] show ?thesis
        by simp
    qed
    with b have "requests (onSubmit sb ex first cl d w)
               = requests (snd (submitBody sb ex first cl uid d (w\<lparr>isLoading := True\<rparr>)))"
      by simp
    then show ?thesis by blast
  qed
qed

subsection \<open>The lookup of a tag\<close>

lemma resolveTagId_found:
  assumes "\<not> truthy_number (tag_id t)"
    and "select_tag_id sb (generateSlug ex (tag_name t)) (backend w) = (Inr existing, b1)"
    and "data existing = Some i"
  shows "\<exists>w1. resolveTagId sb ex t w = (Inr (Some i), w1)
           \<and> requests w1 = requests w @ [SelectTagId (generateSlug ex (tag_name t))]"
  using assms by (simp add: resolveTagId_def call_def Let_def)

lemma resolveTagId_not_found:
  assumes "\<not> truthy_number (tag_id t)"
    and "select_tag_id sb (generateSlug ex (tag_name t)) (backend w) = (Inr existing, b1)"
    and "data existing = None"
  shows "\<exists>r w2. resolveTagId sb ex t w = (r, w2)
           \<and> requests w2 = requests w @ [SelectTagId (generateSlug ex (tag_name t)),
                 InsertTag (capitalizedName ex (tag_name t)) (generateSlug ex (tag_name t))]"
  using assms
  by (auto simp: resolveTagId_def call_def Let_def console_error_def
           split: prod.splits sum.splits option.splits new_tag.splits)

lemma resolveTagId_lookup_throws:
  assumes "\<not> truthy_number (tag_id t)"
    and "select_tag_id sb (generateSlug ex (tag_name t)) (backend w) = (Inl e, b1)"
  shows "\<exists>w1. resolveTagId sb ex t w = (Inl e, w1)
           \<and> requests w1 = requests w @ [SelectTagId (generateSlug ex (tag_name t))]"
  using assms by (simp add: resolveTagId_def call_def Let_def)

lemma addTag_requests_after_resolve:
  assumes "resolveTagId sb ex t w = (r, w1)"
  shows "requests (snd (addTag sb ex componentId t w)) = requests w1
       \<or> (\<exists>tagId. r = Inr (Some tagId)
             \<and> requests (snd (addTag sb ex componentId t w)) = requests w1 @ [InsertComponentTag componentId tagId])"
proof (cases "\<exists>tagId. r = Inr (Some tagId)")
  case True
  then obtain tagId where r: "r = Inr (Some tagId)" by blast
  obtain r2 w2 where l: "linkTag sb componentId tagId w1 = (r2, w2)"
    by (cases "linkTag sb componentId tagId w1")
  from extends_requests[OF linkTag_extends[OF l]] assms r l show ?thesis
    by (simp add: addTag_def)
next
  case False
  with assms show ?thesis
    by (auto simp: addTag_def split: sum.splits option.splits)
qed

section \<open>Claims about onSubmit\<close>

text \<open>
  C4. A submission attempt with no authenticated user (no user, or a user whose id is
  missing or empty) makes no request at all: no storage upload, no insert. The backend is
  left as it was, the only thing shown is the alert asking to log in, and the loading flag
  and the success dialog are untouched.
\<close>

theorem onSubmit_no_user:
  assumes "cl_user cl = None \<or> (\<exists>v. cl_user cl = Some v \<and> (user_id v = None \<or> user_id v = Some []))"
  shows "backend (onSubmit sb ex first cl d w) = backend w
       \<and> requests (onSubmit sb ex first cl d w) = requests w
       \<and> alerts (onSubmit sb ex first cl d w) = alerts w @ [''You must be logged in to add a component.'']
       \<and> isLoading (onSubmit sb ex first cl d w) = isLoading w
       \<and> isSuccessDialogOpen (onSubmit sb ex first cl d w) = isSuccessDialogOpen w"
proof -
  from assms have "authenticated (cl_user cl) = None"
    by (simp add: authenticated_None_iff)
  then show ?thesis
    by (simp add: onSubmit_def alert_def console_error_def)
qed

theorem onSubmit_no_user_witness:
  "cl_user (example_closure None [] []) = None
   \<and> backend (onSubmit (reference_client no_failures) example_externals True
                 (example_closure None [] []) example_form (fresh_page empty_tables)) = empty_tables
   \<and> requests (onSubmit (reference_client no_failures) example_externals True
                 (example_closure None [] []) example_form (fresh_page empty_tables)) = []
   \<and> alerts (onSubmit (reference_client no_failures) example_externals True
                 (example_closure None [] []) example_form (fresh_page empty_tables))
       = [''You must be logged in to add a component.'']"
  using onSubmit_no_user[of "example_closure None [] []" "reference_client no_failures" example_externals
                            True example_form "fresh_page empty_tables"]
  by (simp add: example_closure_def fresh_page_def)

text \<open>
  C5, as amended. For a submission attempt by an authenticated user: if some internal
  dependency is mapped to an empty slug, \<open>onSubmit\<close> makes no request, leaves the backend,
  the loading flag and the success dialog as they were, and shows the alert asking for the
  slugs of all internal dependencies; if every internal dependency has a non-empty slug,
  that alert is not what is shown and the two storage uploads are requested.
\<close>

theorem onSubmit_internal_slug_guard:
  assumes "cl_user cl = Some u" and "user_id u = Some uid" and "uid \<noteq> []"
  shows "((\<exists>slug \<in> set (Object_values (internalDependencies (cl_componentDependencies cl))). slug = []) \<longrightarrow>
            backend (onSubmit sb ex first cl d w) = backend w
          \<and> requests (onSubmit sb ex first cl d w) = requests w
          \<and> alerts (onSubmit sb ex first cl d w)
              = alerts w @ [''Please specify the slug for all internal dependencies'']
          \<and> isLoading (onSubmit sb ex first cl d w) = isLoading w
          \<and> isSuccessDialogOpen (onSubmit sb ex first cl d w) = isSuccessDialogOpen w)
       \<and> ((\<forall>slug \<in> set (Object_values (internalDependencies (cl_componentDependencies cl))). slug \<noteq> []) \<longrightarrow>
            alerts (onSubmit sb ex first cl d w)
              \<noteq> alerts w @ [''Please specify the slug for all internal dependencies'']
          \<and> (\<exists>rest. requests (onSubmit sb ex first cl d w) = requests w
                     @ UploadToStorage (fd_component_slug d @ ''-code.tsx'') (fd_code d)
                     # UploadToStorage (fd_component_slug d @ ''-demo.tsx'') (cl_demoCode cl) # rest))"
proof (intro conjI impI)
  note auth = authenticated_Some[OF assms]
  {
    assume g: "\<exists>slug \<in> set (Object_values (internalDependencies (cl_componentDependencies cl))). slug = []"
    note eq = onSubmit_guard[OF auth g, of sb ex first d w]
    show "backend (onSubmit sb ex first cl d w) = backend w"
      by (simp add: eq alert_def console_error_def)
    show "requests (onSubmit sb ex first cl d w) = requests w"
      by (simp add: eq alert_def console_error_def)
    show "alerts (onSubmit sb ex first cl d w)
              = alerts w @ [''Please specify the slug for all internal dependencies'']"
      by (simp add: eq alert_def console_error_def)
    show "isLoading (onSubmit sb ex first cl d w) = isLoading w"
      by (simp add: eq alert_def console_error_def)
    show "isSuccessDialogOpen (onSubmit sb ex first cl d w) = isSuccessDialogOpen w"
      by (simp add: eq alert_def console_error_def)
  }
  {
    assume g: "\<forall>slug \<in> set (Object_values (internalDependencies (cl_componentDependencies cl))). slug \<noteq> []"
    obtain r w1 where b: "submitBody sb ex first cl uid d (w\<lparr>isLoading := True\<rparr>) = (r, w1)"
      by (cases "submitBody sb ex first cl uid d (w\<lparr>isLoading := True\<rparr>)")
    from submitBody_frame[OF b] obtain rest where
      a: "alerts w1 = alerts w" and
      rq: "requests w1 = requests w
                     @ UploadToStorage (fd_component_slug d @ ''-code.tsx'') (fd_code d)
                     # UploadToStorage (fd_component_slug d @ ''-demo.tsx'') (cl_demoCode cl) # rest"
      by auto
    have "alerts (onSubmit sb ex first cl d w) = alerts w
        \<or> (\<exists>e. alerts (onSubmit sb ex first cl d w) = alerts w @ [errorMessage e])"
    proof (cases r)
      case (Inl e)
      with onSubmit_raised[OF auth g, of sb ex first d w e w1] b a show ?thesis
        by (auto simp: alert_def console_error_def)
    next
      case (Inr v)
      with onSubmit_returned[OF auth g, of sb ex first d w v w1] b a show ?thesis
        by simp
    qed
    moreover have "errorMessage e \<noteq> ''Please specify the slug for all internal dependencies''" for e
      using errorMessage_prefix[of e] by auto
    ultimately show "alerts (onSubmit sb ex first cl d w)
              \<noteq> alerts w @ [''Please specify the slug for all internal dependencies'']"
      by auto
    have "requests (onSubmit sb ex first cl d w) = requests w1"
    proof (cases r)
      case (Inl e)
      with onSubmit_raised[OF auth g, of sb ex first d w e w1] b show ?thesis
        by (simp add: alert_def console_error_def)
    next
      case (Inr v)
      with onSubmit_returned[OF auth g, of sb ex first d w v w1] b show ?thesis
        by simp
    qed
    with rq show "\<exists>rest. requests (onSubmit sb ex first cl d w) = requests w
                     @ UploadToStorage (fd_component_slug d @ ''-code.tsx'') (fd_code d)
                     # UploadToStorage (fd_component_slug d @ ''-demo.tsx'') (cl_demoCode cl) # rest"
      by simp
  }
qed

theorem onSubmit_internal_slug_guard_witness:
  "cl_user (example_closure (Some example_user) [(''@/components/ui/card'', [])] []) = Some example_user
   \<and> user_id example_user = Some ''user_1''
   \<and> requests (onSubmit (reference_client no_failures) example_externals True
                 (example_closure (Some example_user) [(''@/components/ui/card'', [])] [])
                 example_form (fresh_page empty_tables)) = []
   \<and> alerts (onSubmit (reference_client no_failures) example_externals True
                 (example_closure (Some example_user) [(''@/components/ui/card'', [])] [])
                 example_form (fresh_page empty_tables))
       = [''Please specify the slug for all internal dependencies'']
   \<and> alerts (onSubmit (reference_client no_failures) example_externals True
                 (example_closure (Some example_user) [(''@/components/ui/card'', ''card'')] [])
                 example_form (fresh_page empty_tables))
       \<noteq> [''Please specify the slug for all internal dependencies'']"
  using onSubmit_internal_slug_guard[of
          "example_closure (Some example_user) [(''@/components/ui/card'', [])] []"
          example_user "''user_1''" "reference_client no_failures" example_externals True
          example_form "fresh_page empty_tables"]
        onSubmit_internal_slug_guard[of
          "example_closure (Some example_user) [(''@/components/ui/card'', ''card'')] []"
          example_user "''user_1''" "reference_client no_failures" example_externals True
          example_form "fresh_page empty_tables"]
  by (simp add: example_closure_def example_user_def Object_values_def fresh_page_def)

text \<open>
  The claim as first stated does not ask for an authenticated user. With nobody signed in
  and an internal dependency without a slug, the alert shown is the one of the first guard.
\<close>

theorem onSubmit_internal_slug_guard_counterexample:
  "Object_values (internalDependencies (cl_componentDependencies
      (example_closure None [(''@/components/ui/card'', [])] []))) = [[]]
   \<and> alerts (onSubmit (reference_client no_failures) example_externals True
                 (example_closure None [(''@/components/ui/card'', [])] [])
                 example_form (fresh_page empty_tables))
       = [''You must be logged in to add a component.'']
   \<and> alerts (onSubmit (reference_client no_failures) example_externals True
                 (example_closure None [(''@/components/ui/card'', [])] [])
                 example_form (fresh_page empty_tables))
       \<noteq> [''Please specify the slug for all internal dependencies'']"
  by code_simp

text \<open>
  C3. Whenever the \<^verbatim>\<open>try\<close> block of \<open>onSubmit\<close> raises an error \<open>e\<close> (by
  \<open>submitBody_raises_iff\<close> and \<open>insertAndTag_raises_iff\<close> this is a rejection of the two
  storage uploads, or an exception of the preview-image upload, of the component insert or
  of a call made while associating tags), \<open>onSubmit\<close> logs \<open>e\<close> on the console, shows one
  alert, whose text ends with the message of \<open>e\<close> when \<open>e\<close> is an \<^verbatim>\<open>Error\<close>, and resets the
  loading flag. Nothing else is done: no request is made after the one that raised, the
  backend is as that request left it, and the success dialog is not opened.
\<close>

theorem onSubmit_error_handling:
  assumes "cl_user cl = Some u" and "user_id u = Some uid" and "uid \<noteq> []"
    and "\<forall>slug \<in> set (Object_values (internalDependencies (cl_componentDependencies cl))). slug \<noteq> []"
    and "submitBody sb ex first cl uid d (w\<lparr>isLoading := True\<rparr>) = (Inl e, w1)"
  shows "console (onSubmit sb ex first cl d w)
           = console w1 @ [ConsoleError ''Error adding component:'' (Caught e)]
       \<and> alerts (onSubmit sb ex first cl d w) = alerts w @ [errorMessage e]
       \<and> (\<forall>m. e = Error m \<longrightarrow>
             errorMessage e = ''An error occurred while adding the component: '' @ m)
       \<and> isLoading (onSubmit sb ex first cl d w) = False
       \<and> requests (onSubmit sb ex first cl d w) = requests w1
       \<and> backend (onSubmit sb ex first cl d w) = backend w1
       \<and> isSuccessDialogOpen (onSubmit sb ex first cl d w) = isSuccessDialogOpen w"
proof -
  note auth = authenticated_Some[OF assms(1-3)]
  note eq = onSubmit_raised[OF auth assms(4,5)]
  from submitBody_frame[OF assms(5)]
  have a: "alerts w1 = alerts w" and s: "isSuccessDialogOpen w1 = isSuccessDialogOpen w"
    by auto
  show ?thesis
    using a s by (auto simp: eq alert_def console_error_def errorMessage_def)
qed

theorem onSubmit_error_handling_witness:
  "alerts (onSubmit (reference_client component_insert_throws) example_externals True
              (example_closure (Some example_user) [] []) example_form (fresh_page empty_tables))
     = [''An error occurred while adding the component: duplicate key'']
   \<and> isLoading (onSubmit (reference_client component_insert_throws) example_externals True
              (example_closure (Some example_user) [] []) example_form (fresh_page empty_tables)) = False
   \<and> isSuccessDialogOpen (onSubmit (reference_client component_insert_throws) example_externals True
              (example_closure (Some example_user) [] []) example_form (fresh_page empty_tables)) = False"
proof -
  let ?cl = "example_closure (Some example_user) [] []"
  let ?b = "submitBody (reference_client component_insert_throws) example_externals True
              ?cl ''user_1'' example_form ((fresh_page empty_tables)\<lparr>isLoading := True\<rparr>)"
  have h1: "cl_user ?cl = Some example_user" by (simp add: example_closure_def)
  have h2: "user_id example_user = Some ''user_1''" by (simp add: example_user_def)
  have h3: "''user_1'' \<noteq> []" by simp
  have h4: "\<forall>slug \<in> set (Object_values (internalDependencies (cl_componentDependencies ?cl))). slug \<noteq> []"
    by (simp add: example_closure_def Object_values_def)
  have "fst ?b = Inl (Error ''duplicate key'')" by code_simp
  then have h5: "?b = (Inl (Error ''duplicate key''), snd ?b)"
    by (metis prod.collapse)
  from onSubmit_error_handling[OF h1 h2 h3 h4 h5]
  show ?thesis
    by (simp add: errorMessage_def fresh_page_def)
qed

text \<open>
  C6. A submission is successful when it opens the success dialog. For every such
  submission with slug \<open>s\<close>: the code is uploaded under the name \<open>s\<close> followed by
  \<^verbatim>\<open>-code.tsx\<close> and the demo code under \<open>s\<close> followed by \<^verbatim>\<open>-demo.tsx\<close>, both uploads
  succeed, and exactly one component record is handed to \<^verbatim>\<open>addComponent\<close>. In that record
  \<^verbatim>\<open>code\<close> and \<^verbatim>\<open>demo_code\<close> are the URLs the two uploads returned, \<^verbatim>\<open>install_url\<close> is the
  API base URL followed by \<^verbatim>\<open>/api/r/\<close> and \<open>s\<close>, the three dependency records and
  the component names are their \<^verbatim>\<open>JSON.stringify\<close> texts, and \<^verbatim>\<open>user_id\<close> is the id of the
  signed-in user.
\<close>

theorem onSubmit_component_record:
  assumes "\<not> isSuccessDialogOpen w" and "isSuccessDialogOpen (onSubmit sb ex first cl d w)"
  shows "\<exists>u codeUrl demoCodeUrl b1 cdata previews tagrs.
           cl_user cl = Some u \<and> user_id u = Some (cd_user_id cdata)
         \<and> uploadToStorage sb (fd_component_slug d @ ''-code.tsx'') (fd_code d) (backend w) = (Inr codeUrl, b1)
         \<and> fst (uploadToStorage sb (fd_component_slug d @ ''-demo.tsx'') (cl_demoCode cl) b1) = Inr demoCodeUrl
         \<and> requests (onSubmit sb ex first cl d w) = requests w
              @ [UploadToStorage (fd_component_slug d @ ''-code.tsx'') (fd_code d),
                 UploadToStorage (fd_component_slug d @ ''-demo.tsx'') (cl_demoCode cl)]
              @ previews @ AddComponent cdata # tagrs
         \<and> list_all (\<lambda>rq. operation_of rq \<noteq> CreateComponent) (previews @ tagrs)
         \<and> cd_code cdata = codeUrl
         \<and> cd_demo_code cdata = demoCodeUrl
         \<and> cd_component_slug cdata = fd_component_slug d
         \<and> cd_install_url cdata
              = template_string (cl_NEXT_PUBLIC_API_URL cl) @ ''/api/r/'' @ fd_component_slug d
         \<and> (\<forall>base. cl_NEXT_PUBLIC_API_URL cl = Some base \<longrightarrow>
                cd_install_url cdata = base @ ''/api/r/'' @ fd_component_slug d)
         \<and> cd_dependencies cdata
              = JSON_stringify_record ex (dependencies (cl_componentDependencies cl))
         \<and> cd_demo_dependencies cdata
              = JSON_stringify_record ex (demoDependencies (cl_componentDependencies cl))
         \<and> cd_internal_dependencies cdata
              = JSON_stringify_record ex (internalDependencies (cl_componentDependencies cl))
         \<and> cd_component_name cdata
              = JSON_stringify_names ex (componentNames (cl_componentDependencies cl))"
proof -
  from onSubmit_opens_dialog[OF assms] obtain uid r w1 where
    auth: "authenticated (cl_user cl) = Some uid"
    and b: "submitBody sb ex first cl uid d (w\<lparr>isLoading := True\<rparr>) = (r, w1)"
    and s: "isSuccessDialogOpen w1" and rq: "requests (onSubmit sb ex first cl d w) = requests w1"
    by blast
  from authenticated_SomeD[OF auth] obtain u where u: "cl_user cl = Some u" "user_id u = Some uid"
    by blast
  have "\<not> isSuccessDialogOpen (w\<lparr>isLoading := True\<rparr>)" using assms(1) by simp
  from submitBody_opens_dialog[OF b this s]
  obtain codeUrl demoCodeUrl previewImageUrl b1 previews tagrs where
    up: "uploadToStorage sb (fd_component_slug d @ ''-code.tsx'') (fd_code d) (backend w) = (Inr codeUrl, b1)"
        "fst (uploadToStorage sb (fd_component_slug d @ ''-demo.tsx'') (cl_demoCode cl) b1) = Inr demoCodeUrl"
    and j: "requests w1 = requests w
              @ [UploadToStorage (fd_component_slug d @ ''-code.tsx'') (fd_code d),
                 UploadToStorage (fd_component_slug d @ ''-demo.tsx'') (cl_demoCode cl)]
              @ previews
              @ AddComponent (buildComponentData ex cl d uid codeUrl demoCodeUrl previewImageUrl) # tagrs"
    and n: "list_all (\<lambda>rq. operation_of rq \<noteq> CreateComponent) (previews @ tagrs)"
    by auto
  show ?thesis
    apply (rule exI[of _ u], rule exI[of _ codeUrl], rule exI[of _ demoCodeUrl], rule exI[of _ b1])
    apply (rule exI[of _ "buildComponentData ex cl d uid codeUrl demoCodeUrl previewImageUrl"])
    apply (rule exI[of _ previews], rule exI[of _ tagrs])
    using u up j n rq
    apply (simp add: buildComponentData_def template_string_def)
    done
qed


theorem onSubmit_component_record_witness:
  "\<not> isSuccessDialogOpen (fresh_page empty_tables)
   \<and> isSuccessDialogOpen (onSubmit (reference_client no_failures) example_externals True
         (example_closure (Some example_user) [] []) example_form (fresh_page empty_tables))
   \<and> (\<exists>cdata previews tagrs.
         requests (onSubmit (reference_client no_failures) example_externals True
           (example_closure (Some example_user) [] []) example_form (fresh_page empty_tables))
           = [UploadToStorage ''button-code.tsx'' ''export function Button() {}'',
              UploadToStorage ''button-demo.tsx'' ''export function ButtonDemo() {}'']
             @ previews @ AddComponent cdata # tagrs
       \<and> cd_user_id cdata = ''user_1''
       \<and> cd_install_url cdata = ''https://api.example/api/r/button''
       \<and> cd_dependencies cdata = ''react:latest'')"
proof -
  let ?w = "fresh_page empty_tables"
  let ?cl = "example_closure (Some example_user) [] []"
  have h1: "\<not> isSuccessDialogOpen ?w" by (simp add: fresh_page_def)
  have h2: "isSuccessDialogOpen (onSubmit (reference_client no_failures) example_externals True
              ?cl example_form ?w)"
    by code_simp
  from onSubmit_component_record[OF h1 h2]
  obtain u cdata previews tagrs where
    "cl_user ?cl = Some u" "user_id u = Some (cd_user_id cdata)"
    "requests (onSubmit (reference_client no_failures) example_externals True ?cl example_form ?w)
       = requests ?w
         @ [UploadToStorage (fd_component_slug example_form @ ''-code.tsx'') (fd_code example_form),
            UploadToStorage (fd_component_slug example_form @ ''-demo.tsx'') (cl_demoCode ?cl)]
         @ previews @ AddComponent cdata # tagrs"
    "\<forall>base. cl_NEXT_PUBLIC_API_URL ?cl = Some base \<longrightarrow>
        cd_install_url cdata = base @ ''/api/r/'' @ fd_component_slug example_form"
    "cd_dependencies cdata = JSON_stringify_record example_externals (dependencies (cl_componentDependencies ?cl))"
    by blast
  then have "requests (onSubmit (reference_client no_failures) example_externals True ?cl example_form ?w)
           = [UploadToStorage ''button-code.tsx'' ''export function Button() {}'',
              UploadToStorage ''button-demo.tsx'' ''export function ButtonDemo() {}'']
             @ previews @ AddComponent cdata # tagrs
       \<and> cd_user_id cdata = ''user_1''
       \<and> cd_install_url cdata = ''https://api.example/api/r/button''
       \<and> cd_dependencies cdata = ''react:latest''"
    by (auto simp: example_closure_def example_form_def example_user_def example_externals_def fresh_page_def)
  with h1 h2 show ?thesis by blast
qed

text \<open>
  An error reply while a tag is linked is logged inside \<open>addTagsToComponent\<close> and is not an
  exception: the submission below shows no alert and opens the success dialog.
\<close>

lemma onSubmit_link_refused_example:
  "alerts (onSubmit (reference_client link_refused) example_externals True
             (example_closure (Some example_user) [] example_tags) example_form (fresh_page empty_tables)) = []
   \<and> isSuccessDialogOpen (onSubmit (reference_client link_refused) example_externals True
             (example_closure (Some example_user) [] example_tags) example_form (fresh_page empty_tables))
   \<and> console (onSubmit (reference_client link_refused) example_externals True
             (example_closure (Some example_user) [] example_tags) example_form (fresh_page empty_tables))
       = [ConsoleError ''Error linking tag to component:'' (BackendError ''permission denied''),
          ConsoleError ''Error linking tag to component:'' (BackendError ''permission denied'')]"
  by code_simp

section \<open>Claims about failures and tags\<close>

text \<open>The list of components is fetched with retries switched off.\<close>

lemma useComponents_no_retry:
  "retry (useComponents sb tagSlug) = False
   \<and> queryFn (useComponents sb tagSlug) = getComponents sb tagSlug"
  by (simp add: useComponents_def)

subsection \<open>Every tag is handled\<close>

lemma addTagsToComponent_fold:
  assumes "fst (addTagsToComponent sb ex componentId ts w) = Inr u"
  shows "snd (addTagsToComponent sb ex componentId ts w)
           = foldl (\<lambda>w' t. snd (addTag sb ex componentId t w')) w ts"
  using assms
proof (induction ts arbitrary: w)
  case Nil
  show ?case by simp
next
  case (Cons t ts)
  obtain r1 w1 where c1: "addTag sb ex componentId t w = (r1, w1)"
    by (cases "addTag sb ex componentId t w")
  show ?case
  proof (cases r1)
    case (Inl e)
    with Cons.prems c1 show ?thesis by simp
  next
    case (Inr v)
    with Cons.prems c1 have "fst (addTagsToComponent sb ex componentId ts w1) = Inr u" by simp
    from Cons.IH[OF this] Inr c1 show ?thesis by simp
  qed
qed

lemma call_returns:
  assumes "\<forall>e. fst (f (backend w)) \<noteq> Inl e"
  shows "\<exists>v w1. call rq f w = (Inr v, w1)"
proof -
  obtain r b where f: "f (backend w) = (r, b)" by (cases "f (backend w)")
  with assms obtain v where "r = Inr v" by (cases r) auto
  with f show ?thesis by (simp add: call_def)
qed

lemma linkTag_returns:
  assumes "tag_calls_return sb"
  shows "fst (linkTag sb componentId tagId w) = Inr ()"
proof -
  from assms have "\<forall>e. fst (insert_component_tag sb componentId tagId (backend w)) \<noteq> Inl e"
    by (simp add: tag_calls_return_def)
  from call_returns[of "insert_component_tag sb componentId tagId" w
         "InsertComponentTag componentId tagId", OF this]
  obtain v w1 where
    "call (InsertComponentTag componentId tagId) (insert_component_tag sb componentId tagId) w = (Inr v, w1)"
    by blast
  then show ?thesis by (simp add: linkTag_def split: option.splits)
qed

lemma resolveTagId_returns:
  assumes "tag_calls_return sb"
  shows "\<exists>v. fst (resolveTagId sb ex t w) = Inr v"
proof (cases "truthy_number (tag_id t)")
  case True
  then show ?thesis by (simp add: resolveTagId_def)
next
  case False
  let ?slug = "generateSlug ex (tag_name t)"
  let ?name = "capitalizedName ex (tag_name t)"
  from assms have "\<forall>e. fst (select_tag_id sb ?slug (backend w)) \<noteq> Inl e"
    by (simp add: tag_calls_return_def)
  from call_returns[of "select_tag_id sb ?slug" w "SelectTagId ?slug", OF this]
  obtain existing w1 where c1: "call (SelectTagId ?slug) (select_tag_id sb ?slug) w = (Inr existing, w1)"
    by blast
  from assms have "\<forall>e. fst (insert_tag sb ?name ?slug (backend w1)) \<noteq> Inl e"
    by (simp add: tag_calls_return_def)
  from call_returns[of "insert_tag sb ?name ?slug" w1 "InsertTag ?name ?slug", OF this]
  obtain inserted w2 where c2: "call (InsertTag ?name ?slug) (insert_tag sb ?name ?slug) w1 = (Inr inserted, w2)"
    by blast
  from False c1 c2 show ?thesis
    by (simp add: resolveTagId_def Let_def split: option.splits new_tag.splits)
qed

lemma addTag_returns:
  assumes "tag_calls_return sb"
  shows "fst (addTag sb ex componentId t w) = Inr ()"
proof -
  from resolveTagId_returns[OF assms, of ex t w] obtain v w1 where
    "resolveTagId sb ex t w = (Inr v, w1)"
    by (cases "resolveTagId sb ex t w") auto
  then show ?thesis
    using linkTag_returns[OF assms]
    by (cases v) (simp_all add: addTag_def)
qed

lemma addTagsToComponent_returns:
  assumes "tag_calls_return sb"
  shows "fst (addTagsToComponent sb ex componentId ts w) = Inr ()"
proof (induction ts arbitrary: w)
  case Nil
  show ?case by simp
next
  case (Cons t ts)
  from addTag_returns[OF assms, of ex componentId t w] obtain w1 where
    "addTag sb ex componentId t w = (Inr (), w1)"
    by (cases "addTag sb ex componentId t w") auto
  with Cons.IH[of w1] show ?case by simp
qed

lemma reference_client_tag_calls_return:
  assumes "\<forall>rq e. plan rq \<noteq> Some (Throws e)"
  shows "tag_calls_return (reference_client plan)"
  unfolding tag_calls_return_def
proof (intro conjI allI)
  fix slug b e
  show "fst (select_tag_id (reference_client plan) slug b) \<noteq> Inl e"
  proof (cases "plan (SelectTagId slug)")
    case None
    then show ?thesis
      by (cases "tag_ids_by_slug slug b"; cases "tl (tag_ids_by_slug slug b)")
         (auto simp: reference_client_def ref_select_tag_id_def)
  next
    case (Some f)
    with assms show ?thesis
      by (cases f) (auto simp: reference_client_def ref_select_tag_id_def)
  qed
next
  fix name slug b e
  show "fst (insert_tag (reference_client plan) name slug b) \<noteq> Inl e"
  proof (cases "plan (InsertTag name slug)")
    case None
    then show ?thesis by (simp add: reference_client_def ref_insert_tag_def)
  next
    case (Some f)
    with assms show ?thesis
      by (cases f) (auto simp: reference_client_def ref_insert_tag_def)
  qed
next
  fix componentId tagId b e
  show "fst (insert_component_tag (reference_client plan) componentId tagId b) \<noteq> Inl e"
  proof (cases "plan (InsertComponentTag componentId tagId)")
    case None
    then show ?thesis by (simp add: reference_client_def ref_insert_component_tag_def)
  next
    case (Some f)
    with assms show ?thesis
      by (cases f) (auto simp: reference_client_def ref_insert_component_tag_def)
  qed
qed

lemma onSubmit_requests_guarded:
  assumes "authenticated (cl_user cl) = None
         \<or> (\<exists>slug \<in> set (Object_values (internalDependencies (cl_componentDependencies cl))). slug = [])"
  shows "requests (onSubmit sb ex first cl d w) = requests w"
proof (cases "authenticated (cl_user cl)")
  case None
  then show ?thesis by (simp add: onSubmit_def alert_def console_error_def)
next
  case (Some uid)
  with assms have "\<exists>slug \<in> set (Object_values (internalDependencies (cl_componentDependencies cl))). slug = []"
    by simp
  from onSubmit_guard[OF Some this, of sb ex first d w] show ?thesis
    by (simp add: alert_def console_error_def)
qed

lemma onSubmit_requests_submitted:
  assumes "authenticated (cl_user cl) = Some uid"
    and "\<forall>slug \<in> set (Object_values (internalDependencies (cl_componentDependencies cl))). slug \<noteq> []"
  shows "requests (onSubmit sb ex first cl d w)
           = requests (snd (submitBody sb ex first cl uid d (w\<lparr>isLoading := True\<rparr>)))
       \<and> isSuccessDialogOpen (onSubmit sb ex first cl d w)
           = isSuccessDialogOpen (snd (submitBody sb ex first cl uid d (w\<lparr>isLoading := True\<rparr>)))"
proof -
  obtain r w1 where b: "submitBody sb ex first cl uid d (w\<lparr>isLoading := True\<rparr>) = (r, w1)"
    by (cases "submitBody sb ex first cl uid d (w\<lparr>isLoading := True\<rparr>)")
  have "requests (onSubmit sb ex first cl d w) = requests w1
      \<and> isSuccessDialogOpen (onSubmit sb ex first cl d w) = isSuccessDialogOpen w1"
  proof (cases r)
    case (Inl e)
    from onSubmit_raised[OF assms b[unfolded Inl]] show ?thesis
      by (simp add: alert_def console_error_def)
  next
    case (Inr v)
    from onSubmit_returned[OF assms b[unfolded Inr]] show ?thesis
      by simp
  qed
  with b show ?thesis by simp
qed

text \<open>
  C1. Whatever the backend answers, and so in every submission in which some call to it
  fails, the requests that \<open>onSubmit\<close> makes are these. If one of its two guards fires,
  none. Otherwise the two storage uploads, then at most one preview upload and at most one
  component insert, then one segment of requests for each tag handled, in the order of the
  tags. A segment is never empty and holds the lookup, the insert and the link at most once
  each, in that order, all about its own tag and the component at hand. So every operation,
  a failing one included, is attempted once and never again, and none of the requests is a
  delete: nothing is written to undo an earlier write. A submission that opens the success
  dialog has handled every submitted tag to its end.

  For \<open>addTagsToComponent\<close> itself the same holds from any state. Unless a call throws, it
  handles every tag of the list to its end, and the state it leaves is the one reached by
  handling the tags one after the other, each from the state the one before left. With a
  client whose tag operations return, with an error reply or without, it never stops early:
  an error reply while handling one tag changes nothing in how the tags after it are
  handled.
\<close>

theorem submission_attempts_once:
  "(\<exists>head segs componentId.
      requests (onSubmit sb ex first cl d w) = requests w @ head @ concat segs
    \<and> (if authenticated (cl_user cl) = None
           \<or> (\<exists>slug \<in> set (Object_values (internalDependencies (cl_componentDependencies cl))). slug = [])
        then head = [] \<and> segs = []
        else (\<exists>rest. head = UploadToStorage (fd_component_slug d @ ''-code.tsx'') (fd_code d)
                       # UploadToStorage (fd_component_slug d @ ''-demo.tsx'') (cl_demoCode cl) # rest
               \<and> distinct (map operation_of rest)
               \<and> list_all (\<lambda>rq. operation_of rq = StorePreview \<or> operation_of rq = CreateComponent) rest))
    \<and> length segs \<le> length (submittedTags cl)
    \<and> list_all2 (tag_journal ex componentId) (take (length segs) (submittedTags cl)) segs
    \<and> (\<not> isSuccessDialogOpen w \<and> isSuccessDialogOpen (onSubmit sb ex first cl d w) \<longrightarrow>
          length segs = length (submittedTags cl) \<and> list_all handled_to_end segs)
    \<and> list_all (\<lambda>rq. operation_of rq \<noteq> RemoveLike) (head @ concat segs))
   \<and> (\<exists>segs.
      requests (snd (addTagsToComponent sb ex tagged ts v)) = requests v @ concat segs
    \<and> length segs \<le> length ts
    \<and> list_all2 (tag_journal ex tagged) (take (length segs) ts) segs
    \<and> ((\<exists>u. fst (addTagsToComponent sb ex tagged ts v) = Inr u) \<longrightarrow>
          length segs = length ts \<and> list_all handled_to_end segs)
    \<and> list_all (\<lambda>rq. operation_of rq \<noteq> RemoveLike) (concat segs))
   \<and> ((\<exists>u. fst (addTagsToComponent sb ex tagged ts v) = Inr u) \<longrightarrow>
         snd (addTagsToComponent sb ex tagged ts v)
           = foldl (\<lambda>w' t. snd (addTag sb ex tagged t w')) v ts)
   \<and> (tag_calls_return sb \<longrightarrow> fst (addTagsToComponent sb ex tagged ts v) = Inr ())"
proof (intro conjI)
  let ?c = "UploadToStorage (fd_component_slug d @ ''-code.tsx'') (fd_code d)"
  let ?d = "UploadToStorage (fd_component_slug d @ ''-demo.tsx'') (cl_demoCode cl)"
  let ?guard = "authenticated (cl_user cl) = None
           \<or> (\<exists>slug \<in> set (Object_values (internalDependencies (cl_componentDependencies cl))). slug = [])"
  let ?goal = "\<exists>head segs componentId.
      requests (onSubmit sb ex first cl d w) = requests w @ head @ concat segs
    \<and> (if ?guard
        then head = [] \<and> segs = []
        else (\<exists>rest. head = ?c # ?d # rest
               \<and> distinct (map operation_of rest)
               \<and> list_all (\<lambda>rq. operation_of rq = StorePreview \<or> operation_of rq = CreateComponent) rest))
    \<and> length segs \<le> length (submittedTags cl)
    \<and> list_all2 (tag_journal ex componentId) (take (length segs) (submittedTags cl)) segs
    \<and> (\<not> isSuccessDialogOpen w \<and> isSuccessDialogOpen (onSubmit sb ex first cl d w) \<longrightarrow>
          length segs = length (submittedTags cl) \<and> list_all handled_to_end segs)
    \<and> list_all (\<lambda>rq. operation_of rq \<noteq> RemoveLike) (head @ concat segs)"
  show ?goal
  proof (cases ?guard)
    case True
    from onSubmit_requests_guarded[OF True, of sb ex first d w]
    have rq: "requests (onSubmit sb ex first cl d w) = requests w" .
    have dl: "isSuccessDialogOpen (onSubmit sb ex first cl d w) = isSuccessDialogOpen w"
    proof (cases "authenticated (cl_user cl)")
      case None
      then show ?thesis by (simp add: onSubmit_def alert_def console_error_def)
    next
      case (Some uid)
      with True have "\<exists>slug \<in> set (Object_values (internalDependencies (cl_componentDependencies cl))). slug = []"
        by simp
      from onSubmit_guard[OF Some this, of sb ex first d w] show ?thesis
        by (simp add: alert_def console_error_def)
    qed
    from True rq dl show ?thesis
      by (intro exI[of _ "[]"]) simp
  next
    case False
    then obtain uid where auth: "authenticated (cl_user cl) = Some uid"
      and g: "\<forall>slug \<in> set (Object_values (internalDependencies (cl_componentDependencies cl))). slug \<noteq> []"
      by auto
    obtain r w1 where b: "submitBody sb ex first cl uid d (w\<lparr>isLoading := True\<rparr>) = (r, w1)"
      by (cases "submitBody sb ex first cl uid d (w\<lparr>isLoading := True\<rparr>)")
    from onSubmit_requests_submitted[OF auth g, of sb ex first d w] b
    have rq: "requests (onSubmit sb ex first cl d w) = requests w1"
      and dl: "isSuccessDialogOpen (onSubmit sb ex first cl d w) = isSuccessDialogOpen w1"
      by simp_all
    from submitBody_journal[OF b] obtain w5 rest segs componentId where
      e: "extends (w\<lparr>isLoading := True\<rparr>) (?c # ?d # rest @ concat segs) w5"
      and w1: "w1 = w5 \<or> (w1 = w5\<lparr>isSuccessDialogOpen := True\<rparr> \<and> r = Inr ())"
      and di: "distinct (map operation_of rest)"
      and ops: "list_all (\<lambda>rq. operation_of rq = StorePreview \<or> operation_of rq = CreateComponent) rest"
      and len: "length segs \<le> length (submittedTags cl)"
      and all: "list_all2 (tag_journal ex componentId) (take (length segs) (submittedTags cl)) segs"
      and full: "isSuccessDialogOpen w1 \<and> \<not> isSuccessDialogOpen (w\<lparr>isLoading := True\<rparr>) \<longrightarrow>
                  length segs = length (submittedTags cl) \<and> list_all handled_to_end segs"
      by blast
    have "requests w1 = requests w @ (?c # ?d # rest) @ concat segs"
      using w1 extends_requests[OF e] by auto
    with rq have 1: "requests (onSubmit sb ex first cl d w) = requests w @ (?c # ?d # rest) @ concat segs"
      by simp
    have 2: "list_all (\<lambda>rq. operation_of rq \<noteq> RemoveLike) ((?c # ?d # rest) @ concat segs)"
      using ops segments_no_delete[OF all] by (auto simp: list_all_iff)
    have 3: "\<not> isSuccessDialogOpen w \<and> isSuccessDialogOpen (onSubmit sb ex first cl d w) \<longrightarrow>
          length segs = length (submittedTags cl) \<and> list_all handled_to_end segs"
      using full dl by simp
    from False 1 2 3 di ops len all show ?thesis
      by (intro exI[of _ "?c # ?d # rest"] exI[of _ segs] exI[of _ componentId]) simp
  qed
next
  obtain r w' where a: "addTagsToComponent sb ex tagged ts v = (r, w')"
    by (cases "addTagsToComponent sb ex tagged ts v")
  from addTagsToComponent_extends[OF a] obtain segs where
    e: "extends v (concat segs) w'" and len: "length segs \<le> length ts"
    and all: "list_all2 (tag_journal ex tagged) (take (length segs) ts) segs"
    and full: "\<forall>u. r = Inr u \<longrightarrow> length segs = length ts \<and> list_all handled_to_end segs"
    by blast
  from a extends_requests[OF e] len all full segments_no_delete[OF all]
  show "\<exists>segs.
      requests (snd (addTagsToComponent sb ex tagged ts v)) = requests v @ concat segs
    \<and> length segs \<le> length ts
    \<and> list_all2 (tag_journal ex tagged) (take (length segs) ts) segs
    \<and> ((\<exists>u. fst (addTagsToComponent sb ex tagged ts v) = Inr u) \<longrightarrow>
          length segs = length ts \<and> list_all handled_to_end segs)
    \<and> list_all (\<lambda>rq. operation_of rq \<noteq> RemoveLike) (concat segs)"
    by (intro exI[of _ segs]) auto
next
  show "(\<exists>u. fst (addTagsToComponent sb ex tagged ts v) = Inr u) \<longrightarrow>
         snd (addTagsToComponent sb ex tagged ts v)
           = foldl (\<lambda>w' t. snd (addTag sb ex tagged t w')) v ts"
    using addTagsToComponent_fold by blast
next
  show "tag_calls_return sb \<longrightarrow> fst (addTagsToComponent sb ex tagged ts v) = Inr ()"
    using addTagsToComponent_returns by blast
qed

theorem submission_attempts_once_witness:
  "fst (addTagsToComponent (reference_client link_refused) example_externals 1 example_tags
          (fresh_page empty_tables)) = Inr ()
   \<and> (\<exists>segs. requests (snd (addTagsToComponent (reference_client link_refused) example_externals 1
                   example_tags (fresh_page empty_tables))) = concat segs
         \<and> length segs = 2
         \<and> list_all2 (tag_journal example_externals 1) example_tags segs
         \<and> list_all handled_to_end segs)
   \<and> requests (snd (addTagsToComponent (reference_client link_refused) example_externals 1
                   example_tags (fresh_page empty_tables)))
       = [SelectTagId ''button'', InsertTag ''Button'' ''button'', InsertComponentTag 1 1,
          InsertComponentTag 1 7]
   \<and> console (snd (addTagsToComponent (reference_client link_refused) example_externals 1
                   example_tags (fresh_page empty_tables)))
       = [ConsoleError ''Error linking tag to component:'' (BackendError ''permission denied''),
          ConsoleError ''Error linking tag to component:'' (BackendError ''permission denied'')]"
proof -
  let ?run = "addTagsToComponent (reference_client link_refused) example_externals 1 example_tags
                (fresh_page empty_tables)"
  note t = submission_attempts_once[where sb = "reference_client link_refused" and ex = example_externals
         and tagged = 1 and ts = example_tags and v = "fresh_page empty_tables"]
  have "\<forall>rq e. link_refused rq \<noteq> Some (Throws e)"
    by (simp add: link_refused_def)
  then have c: "tag_calls_return (reference_client link_refused)"
    by (rule reference_client_tag_calls_return)
  from t[THEN conjunct2, THEN conjunct2, THEN conjunct2] c
  have h: "fst ?run = Inr ()" by simp
  have j: "requests (snd ?run)
       = [SelectTagId ''button'', InsertTag ''Button'' ''button'', InsertComponentTag 1 1,
          InsertComponentTag 1 7]"
    by code_simp
  have k: "console (snd ?run)
       = [ConsoleError ''Error linking tag to component:'' (BackendError ''permission denied''),
          ConsoleError ''Error linking tag to component:'' (BackendError ''permission denied'')]"
    by code_simp
  have l: "length example_tags = 2" by (simp add: example_tags_def)
  from t[THEN conjunct2, THEN conjunct1]
  obtain segs where
    "requests (snd ?run) = requests (fresh_page empty_tables) @ concat segs"
    "length segs \<le> length example_tags"
    "list_all2 (tag_journal example_externals 1) (take (length segs) example_tags) segs"
    "(\<exists>u. fst ?run = Inr u) \<longrightarrow> length segs = length example_tags \<and> list_all handled_to_end segs"
    by blast
  with h l have "requests (snd ?run) = concat segs \<and> length segs = 2
         \<and> list_all2 (tag_journal example_externals 1) example_tags segs
         \<and> list_all handled_to_end segs"
    by (simp add: fresh_page_def)
  with h j k show ?thesis by blast
qed

text \<open>
  C9, as amended. For a tag without an id (an id of 0 counts as none), what
  \<open>addTagsToComponent\<close> does with it is decided by the reply to the lookup of the slug
  \<open>generateSlug (tag_name t)\<close>, not by the contents of the tags table. If the lookup
  returns a row, the requests for the tag are the lookup and the link with that row's id,
  and no tag is inserted. An insert of a tag is requested exactly when the lookup returned
  without a row, and then it is the insert of the capitalized name with the generated slug.
\<close>

theorem addTag_lookup_decides:
  assumes "\<not> truthy_number (tag_id t)"
    and "select_tag_id sb (generateSlug ex (tag_name t)) (backend w) = (r, b1)"
  shows "(\<forall>existing i. r = Inr existing \<and> data existing = Some i \<longrightarrow>
            new_requests w (snd (addTag sb ex componentId t w))
              = [SelectTagId (generateSlug ex (tag_name t)), InsertComponentTag componentId i])
       \<and> ((\<exists>rq \<in> set (new_requests w (snd (addTag sb ex componentId t w))). operation_of rq = CreateTag)
            \<longleftrightarrow> (\<exists>existing. r = Inr existing \<and> data existing = None))
       \<and> (\<forall>rq \<in> set (new_requests w (snd (addTag sb ex componentId t w))).
             operation_of rq = CreateTag \<longrightarrow>
             rq = InsertTag (capitalizedName ex (tag_name t)) (generateSlug ex (tag_name t)))"
proof -
  let ?slug = "generateSlug ex (tag_name t)"
  let ?new = "new_requests w (snd (addTag sb ex componentId t w))"
  obtain r1 w1 where res: "resolveTagId sb ex t w = (r1, w1)"
    by (cases "resolveTagId sb ex t w")
  note after = addTag_requests_after_resolve[OF res, of componentId]
  consider (throws) e where "r = Inl e"
    | (found) existing i where "r = Inr existing" "data existing = Some i"
    | (missing) existing where "r = Inr existing" "data existing = None"
  proof (cases r)
    case (Inl e)
    then show ?thesis by (rule throws)
  next
    case (Inr existing)
    then show ?thesis by (cases "data existing") (auto intro: found missing)
  qed
  then show ?thesis
  proof cases
    case throws
    from resolveTagId_lookup_throws[OF assms(1) assms(2)[unfolded throws]] res
    have "r1 = Inl e" "requests w1 = requests w @ [SelectTagId ?slug]" by auto
    with after have "?new = [SelectTagId ?slug]"
      by (auto simp: new_requests_def)
    with throws show ?thesis by simp
  next
    case found
    from resolveTagId_found[OF assms(1) assms(2)[unfolded found(1)] found(2)] res
    have "r1 = Inr (Some i)" "requests w1 = requests w @ [SelectTagId ?slug]" by auto
    moreover
    obtain r2 w2 where l: "linkTag sb componentId i w1 = (r2, w2)"
      by (cases "linkTag sb componentId i w1")
    ultimately have "?new = [SelectTagId ?slug, InsertComponentTag componentId i]"
      using res extends_requests[OF linkTag_extends[OF l]]
      by (simp add: addTag_def new_requests_def)
    with found show ?thesis by simp
  next
    case missing
    from resolveTagId_not_found[OF assms(1) assms(2)[unfolded missing(1)] missing(2)] res
    have "requests w1 = requests w @ [SelectTagId ?slug, InsertTag (capitalizedName ex (tag_name t)) ?slug]"
      by auto
    with after have "?new = [SelectTagId ?slug, InsertTag (capitalizedName ex (tag_name t)) ?slug]
                   \<or> (\<exists>tagId. ?new = [SelectTagId ?slug, InsertTag (capitalizedName ex (tag_name t)) ?slug,
                                       InsertComponentTag componentId tagId])"
      by (auto simp: new_requests_def)
    with missing show ?thesis by auto
  qed
qed

theorem addTag_lookup_decides_witness:
  "new_requests (fresh_page one_tag_tables)
     (snd (addTag (reference_client no_failures) example_externals 1
        \<lparr> tag_id = None, tag_name = ''button'', tag_slug = Some ''button'' \<rparr> (fresh_page one_tag_tables)))
     = [SelectTagId ''button'', InsertComponentTag 1 7]
   \<and> tags_table (backend (snd (addTag (reference_client no_failures) example_externals 1
        \<lparr> tag_id = None, tag_name = ''button'', tag_slug = Some ''button'' \<rparr> (fresh_page one_tag_tables))))
     = [(7, ''Button'', ''button'')]"
proof -
  let ?t = "\<lparr> tag_id = None, tag_name = ''button'', tag_slug = Some ''button'' \<rparr>"
  have h1: "\<not> truthy_number (tag_id ?t)" by (simp add: truthy_number_def)
  have h2: "select_tag_id (reference_client no_failures) (generateSlug example_externals (tag_name ?t))
              (backend (fresh_page one_tag_tables))
            = (Inr \<lparr> data = Some 7, error = None \<rparr>, one_tag_tables)"
    by code_simp
  from addTag_lookup_decides[OF h1 h2, of 1, THEN conjunct1]
  have "new_requests (fresh_page one_tag_tables)
          (snd (addTag (reference_client no_failures) example_externals 1 ?t (fresh_page one_tag_tables)))
        = [SelectTagId (generateSlug example_externals (tag_name ?t)), InsertComponentTag 1 7]"
    by simp
  moreover have "tags_table (backend (snd (addTag (reference_client no_failures) example_externals 1
        ?t (fresh_page one_tag_tables)))) = [(7, ''Button'', ''button'')]"
    by code_simp
  ultimately show ?thesis by (simp add: example_externals_def)
qed

text \<open>
  The claim as first stated speaks of the tag existing. A tag with the slug exists here and
  the lookup fails: where the backend accepts a second row with the same slug, a new row is
  inserted and the link uses the new id, not the existing one; where it refuses, no link is
  made at all.
\<close>

theorem addTag_existing_slug_counterexample:
  "tag_ids_by_slug (generateSlug example_externals ''button'') one_tag_tables = [7]
   \<and> new_requests (fresh_page one_tag_tables)
       (snd (addTagsToComponent (reference_client lookup_fails) example_externals 1
          [\<lparr> tag_id = None, tag_name = ''button'', tag_slug = Some ''button'' \<rparr>] (fresh_page one_tag_tables)))
     = [SelectTagId ''button'', InsertTag ''Button'' ''button'', InsertComponentTag 1 2]
   \<and> tags_table (backend (snd (addTagsToComponent (reference_client lookup_fails) example_externals 1
          [\<lparr> tag_id = None, tag_name = ''button'', tag_slug = Some ''button'' \<rparr>] (fresh_page one_tag_tables))))
     = [(7, ''Button'', ''button''), (2, ''Button'', ''button'')]
   \<and> new_requests (fresh_page one_tag_tables)
       (snd (addTagsToComponent (reference_client lookup_fails_slug_unique) example_externals 1
          [\<lparr> tag_id = None, tag_name = ''button'', tag_slug = Some ''button'' \<rparr>] (fresh_page one_tag_tables)))
     = [SelectTagId ''button'', InsertTag ''Button'' ''button'']
   \<and> component_tags_table (backend (snd (addTagsToComponent (reference_client lookup_fails_slug_unique)
          example_externals 1
          [\<lparr> tag_id = None, tag_name = ''button'', tag_slug = Some ''button'' \<rparr>] (fresh_page one_tag_tables))))
     = []"
  by code_simp

section \<open>Claims about the reads\<close>

lemma fetchDependency_reply:
  "fst (fetchDependency sb slug w) = succeeded (fst (read_single sb (dependency_query slug) (backend w)))
   \<and> backend (snd (fetchDependency sb slug w)) = snd (read_single sb (dependency_query slug) (backend w))
   \<and> requests (snd (fetchDependency sb slug w)) = requests w @ [Read (dependency_query slug)]"
  by (auto simp: fetchDependency_def succeeded_def call_def console_error_def
           split: prod.splits sum.splits option.splits)

lemma fetchDependencies_replies:
  "fst (fetchDependencies sb slugs w) = map succeeded (dependency_replies sb slugs (backend w))
   \<and> requests (snd (fetchDependencies sb slugs w)) = requests w @ map (\<lambda>slug. Read (dependency_query slug)) slugs"
proof (induction slugs arbitrary: w)
  case Nil
  show ?case by simp
next
  case (Cons slug slugs)
  obtain c w1 where f: "fetchDependency sb slug w = (c, w1)"
    by (cases "fetchDependency sb slug w")
  obtain r b' where r: "read_single sb (dependency_query slug) (backend w) = (r, b')"
    by (cases "read_single sb (dependency_query slug) (backend w)")
  from fetchDependency_reply[of sb slug w] f r
  have 1: "c = succeeded r" "backend w1 = b'" "requests w1 = requests w @ [Read (dependency_query slug)]"
    by auto
  obtain cs w2 where fs: "fetchDependencies sb slugs w1 = (cs, w2)"
    by (cases "fetchDependencies sb slugs w1")
  from Cons.IH[of w1] 1 f r fs show ?case
    by simp
qed

lemma length_dependency_replies: "length (dependency_replies sb slugs b) = length slugs"
  by (induction slugs arbitrary: b) (auto split: prod.splits)

text \<open>
  C10. \<open>fetchDependencyComponents\<close> reads each slug once, in the order of the list, and
  returns the components of the reads that succeeded, in that order: a read that throws or
  comes back with an error (or without a row) contributes nothing. The result holds no
  \<^verbatim>\<open>null\<close> and is at most as long as the list of slugs.
\<close>

theorem fetchDependencyComponents_result:
  "fst (fetchDependencyComponents sb slugs w)
     = filter (\<lambda>c. c \<noteq> None) (map succeeded (dependency_replies sb slugs (backend w)))
   \<and> length (dependency_replies sb slugs (backend w)) = length slugs
   \<and> requests (snd (fetchDependencyComponents sb slugs w))
     = requests w @ map (\<lambda>slug. Read (dependency_query slug)) slugs
   \<and> None \<notin> set (fst (fetchDependencyComponents sb slugs w))
   \<and> length (fst (fetchDependencyComponents sb slugs w)) \<le> length slugs"
proof -
  obtain cs w1 where fs: "fetchDependencies sb slugs w = (cs, w1)"
    by (cases "fetchDependencies sb slugs w")
  have 1: "fst (fetchDependencyComponents sb slugs w)
     = filter (\<lambda>c. c \<noteq> None) (map succeeded (dependency_replies sb slugs (backend w)))"
    using fetchDependencies_replies[of sb slugs w] fs
    by (simp add: fetchDependencyComponents_def)
  have 2: "requests (snd (fetchDependencyComponents sb slugs w))
     = requests w @ map (\<lambda>slug. Read (dependency_query slug)) slugs"
    using fetchDependencies_replies[of sb slugs w] fs
    by (simp add: fetchDependencyComponents_def)
  have 3: "length (filter (\<lambda>c. c \<noteq> None) (map succeeded (dependency_replies sb slugs (backend w))))
             \<le> length slugs"
    using length_filter_le[of "\<lambda>c. c \<noteq> None" "map succeeded (dependency_replies sb slugs (backend w))"]
    by (simp add: length_dependency_replies)
  from 1 2 3 show ?thesis by (simp add: length_dependency_replies)
qed

theorem fetchDependencyComponents_result_witness:
  "fst (fetchDependencyComponents (reference_client no_failures) [''dialog'', ''missing'', ''button'']
          (fresh_page example_rows))
     = [Some (example_row 3 ''dialog'' True), Some (example_row 1 ''button'' True)]
   \<and> map succeeded (dependency_replies (reference_client no_failures) [''dialog'', ''missing'', ''button'']
          example_rows)
     = [Some (example_row 3 ''dialog'' True), None, Some (example_row 1 ''button'' True)]"
proof -
  have "map succeeded (dependency_replies (reference_client no_failures) [''dialog'', ''missing'', ''button'']
          example_rows)
     = [Some (example_row 3 ''dialog'' True), None, Some (example_row 1 ''button'' True)]"
    by code_simp
  with fetchDependencyComponents_result[of "reference_client no_failures"
         "[''dialog'', ''missing'', ''button'']" "fresh_page example_rows"]
  show ?thesis by (simp add: fresh_page_def)
qed

lemma is_public_filter_in_queries:
  "(''is_public'', Bool True) \<in> set (q_filters (getComponent_query uname slug))
   \<and> (''is_public'', Bool True) \<in> set (q_filters (getUserComponents_query userId))
   \<and> (''is_public'', Bool True) \<in> set (q_filters (getComponents_query tagSlug))"
  by (simp add: getComponent_query_def getUserComponents_query_def getComponents_query_def)

lemma honours_many:
  assumes "honours_filters sb" and "read_many sb q b = (Inr r, b')" and "data r = Some rows"
    and "(''is_public'', Bool True) \<in> set (q_filters q)" and "c \<in> set rows"
  shows "c_is_public c"
proof -
  from assms(1,2,3,5) have "\<forall>f \<in> set (q_filters q). row_matches c f"
    unfolding honours_filters_def by blast
  with assms(4) have "row_matches c (''is_public'', Bool True)" by blast
  then show ?thesis by simp
qed

lemma honours_single:
  assumes "honours_filters sb" and "read_single sb q b = (Inr r, b')" and "data r = Some c"
    and "(''is_public'', Bool True) \<in> set (q_filters q)"
  shows "c_is_public c"
proof -
  from assms(1,2,3) have "\<forall>f \<in> set (q_filters q). row_matches c f"
    unfolding honours_filters_def by blast
  with assms(4) have "row_matches c (''is_public'', Bool True)" by blast
  then show ?thesis by simp
qed

lemma getComponent_data:
  assumes "getComponent sb uname slug w = (Inr r, w')" and "fetched_data r = Some c"
  shows "\<exists>rep b' c0. read_single sb (getComponent_query uname slug) (backend w) = (Inr rep, b')
           \<and> data rep = Some c0 \<and> c = unwrapTags c0"
  using assms
  by (auto simp: getComponent_def call_def split: prod.splits sum.splits option.splits)

lemma getUserComponents_data:
  assumes "getUserComponents sb userId w = (Inr (Some cs), w')"
  shows "\<exists>rep b'. read_many sb (getUserComponents_query userId) (backend w) = (Inr rep, b')
           \<and> data rep = Some cs"
  using assms
  by (auto simp: getUserComponents_def call_def split: prod.splits sum.splits option.splits)

lemma getComponents_data:
  assumes "getComponents sb tagSlug w = (Inr (Some cs), w')"
  shows "\<exists>rep b'. read_many sb (getComponents_query tagSlug) (backend w) = (Inr rep, b')
           \<and> data rep = Some cs"
  using assms
  by (auto simp: getComponents_def call_def split: prod.splits sum.splits option.splits)

lemma set_ref_rows:
  assumes "c \<in> set (ref_rows q b)"
  shows "\<forall>f \<in> set (q_filters q). row_matches c f"
proof -
  let ?matching = "filter (\<lambda>c. list_all (row_matches c) (q_filters q)) (component_rows b)"
  have "set (ref_rows q b) \<subseteq> set ?matching"
  proof (cases "q_limit q")
    case None
    then show ?thesis by (simp add: ref_rows_def Let_def del: row_matches.simps)
  next
    case (Some n)
    then show ?thesis
      using set_take_subset[of n ?matching] by (simp add: ref_rows_def Let_def del: row_matches.simps)
  qed
  with assms have "c \<in> set ?matching" by blast
  then have "list_all (row_matches c) (q_filters q)" by (simp del: row_matches.simps)
  then show ?thesis by (simp add: list_all_iff del: row_matches.simps)
qed

lemma ref_read_many_rows:
  assumes "ref_read_many plan q b = (Inr r, b')" and "data r = Some rows"
  shows "rows = ref_rows q b"
proof (cases "plan (Read q)")
  case None
  with assms show ?thesis by (auto simp: ref_read_many_def)
next
  case (Some f)
  with assms show ?thesis by (cases f) (auto simp: ref_read_many_def)
qed

lemma ref_read_single_row:
  assumes "ref_read_single plan q b = (Inr r, b')" and "data r = Some c"
  shows "c \<in> set (ref_rows q b)"
proof (cases "plan (Read q)")
  case None
  show ?thesis
  proof (cases "ref_rows q b")
    case Nil
    with None assms show ?thesis by (auto simp: ref_read_single_def)
  next
    case (Cons x xs)
    with None assms show ?thesis by (cases xs) (auto simp: ref_read_single_def)
  qed
next
  case (Some f)
  with assms show ?thesis by (cases f) (auto simp: ref_read_single_def)
qed

lemma reference_client_honours_filters: "honours_filters (reference_client plan)"
  unfolding honours_filters_def
proof (intro conjI allI impI)
  fix q b r b' rows
  assume "read_many (reference_client plan) q b = (Inr r, b')" and d: "data r = Some rows"
  then have "ref_read_many plan q b = (Inr r, b')" by (simp add: reference_client_def)
  from ref_read_many_rows[OF this d] show "\<forall>c \<in> set rows. \<forall>f \<in> set (q_filters q). row_matches c f"
    using set_ref_rows by blast
next
  fix q b r b' c
  assume "read_single (reference_client plan) q b = (Inr r, b')" and d: "data r = Some c"
  then have "ref_read_single plan q b = (Inr r, b')" by (simp add: reference_client_def)
  from set_ref_rows[OF ref_read_single_row[OF this d]]
  show "\<forall>f \<in> set (q_filters q). row_matches c f" .
qed

text \<open>
  C8. The queries of \<open>getComponent\<close>, \<open>getUserComponents\<close> and \<open>getComponents\<close> each carry
  the filter \<^verbatim>\<open>is_public = true\<close>. So with a backend that applies the filters of a query
  to the rows it returns, every component these three functions return is public: a
  private component is never among their results.
\<close>

theorem reads_return_public_components:
  assumes "honours_filters sb"
  shows "(''is_public'', Bool True) \<in> set (q_filters (getComponent_query uname slug))
       \<and> (''is_public'', Bool True) \<in> set (q_filters (getUserComponents_query userId))
       \<and> (''is_public'', Bool True) \<in> set (q_filters (getComponents_query tagSlug))
       \<and> (\<forall>r w' c. getComponent sb uname slug w = (Inr r, w') \<and> fetched_data r = Some c
             \<longrightarrow> c_is_public c)
       \<and> (\<forall>cs w'. getUserComponents sb userId w = (Inr (Some cs), w')
             \<longrightarrow> (\<forall>c \<in> set cs. c_is_public c))
       \<and> (\<forall>cs w'. getComponents sb tagSlug w = (Inr (Some cs), w')
             \<longrightarrow> (\<forall>c \<in> set cs. c_is_public c))"
proof (intro conjI allI impI ballI)
  note f = is_public_filter_in_queries[of uname slug userId tagSlug]
  show "(''is_public'', Bool True) \<in> set (q_filters (getComponent_query uname slug))"
    using f by simp
  show "(''is_public'', Bool True) \<in> set (q_filters (getUserComponents_query userId))"
    using f by simp
  show "(''is_public'', Bool True) \<in> set (q_filters (getComponents_query tagSlug))"
    using f by simp
  {
    fix r w' c
    assume "getComponent sb uname slug w = (Inr r, w') \<and> fetched_data r = Some c"
    then obtain rep b' c0 where
      "read_single sb (getComponent_query uname slug) (backend w) = (Inr rep, b')"
      "data rep = Some c0" "c = unwrapTags c0"
      using getComponent_data by blast
    with honours_single[OF assms this(1,2)] f show "c_is_public c"
      by (simp add: unwrapTags_def)
  }
  {
    fix cs w' c
    assume "getUserComponents sb userId w = (Inr (Some cs), w')" and c: "c \<in> set cs"
    then obtain rep b' where
      "read_many sb (getUserComponents_query userId) (backend w) = (Inr rep, b')" "data rep = Some cs"
      using getUserComponents_data by blast
    from honours_many[OF assms this _ c] f show "c_is_public c" by simp
  }
  {
    fix cs w' c
    assume "getComponents sb tagSlug w = (Inr (Some cs), w')" and c: "c \<in> set cs"
    then obtain rep b' where
      "read_many sb (getComponents_query tagSlug) (backend w) = (Inr rep, b')" "data rep = Some cs"
      using getComponents_data by blast
    from honours_many[OF assms this _ c] f show "c_is_public c" by simp
  }
qed

theorem reads_return_public_components_witness:
  "fst (getUserComponents (reference_client no_failures) ''user_1'' (fresh_page example_rows))
       = Inr (Some [example_row 1 ''button'' True, example_row 3 ''dialog'' True])
   \<and> c_is_public (example_row 1 ''button'' True)
   \<and> c_is_public (example_row 3 ''dialog'' True)
   \<and> example_row 2 ''card'' False \<in> set (component_rows example_rows)"
proof -
  let ?run = "getUserComponents (reference_client no_failures) ''user_1'' (fresh_page example_rows)"
  let ?rows = "[example_row 1 ''button'' True, example_row 3 ''dialog'' True]"
  have h: "honours_filters (reference_client no_failures)"
    by (rule reference_client_honours_filters)
  have v: "fst ?run = Inr (Some ?rows)"
    by code_simp
  have eq: "?run = (Inr (Some ?rows), snd ?run)"
    using v prod.collapse[of ?run] by simp
  note a = reads_return_public_components[OF h, where userId = "''user_1''" and w = "fresh_page example_rows",
      THEN conjunct2, THEN conjunct2, THEN conjunct2, THEN conjunct2, THEN conjunct1]
  have p: "c_is_public (example_row 1 ''button'' True) \<and> c_is_public (example_row 3 ''dialog'' True)"
    using a[rule_format, OF eq] by simp
  have r: "example_row 2 ''card'' False \<in> set (component_rows example_rows)"
    by (simp add: example_rows_def)
  from v p r show ?thesis by (intro conjI) simp_all
qed

section \<open>Claims about the effects of the form\<close>

lemma parseDependencies_returns:
  assumes "extractComponentNames ps code = Inr names"
    and "extractDependencies ps code = Inr deps"
    and "extractDependencies ps demoCode = Inr demoDeps"
    and "extractDemoComponentName ps demoCode = Inr demoName"
    and "findInternalDependencies ps deps demoDeps = Inr internal"
  shows "parseDependencies ps code demoCode =
           Inr \<lparr> dependencies = deps, demoDependencies = demoDeps, internalDependencies = internal,
                 componentNames = names, demoComponentName = demoName \<rparr>"
  using assms by (simp add: parseDependencies_def)

lemma parseDependencies_throws:
  assumes "extractComponentNames ps code = Inl e \<or> extractDependencies ps code = Inl e
         \<or> extractDependencies ps demoCode = Inl e \<or> extractDemoComponentName ps demoCode = Inl e
         \<or> (\<exists>deps demoDeps. extractDependencies ps code = Inr deps
               \<and> extractDependencies ps demoCode = Inr demoDeps
               \<and> findInternalDependencies ps deps demoDeps = Inl e)"
  shows "\<exists>e'. parseDependencies ps code demoCode = Inl e'"
  using assms by (auto simp: parseDependencies_def split: sum.splits)

text \<open>
  C7. The effect on the two code texts runs whenever the pair of texts differs from that of
  the render before, and only then, and what it runs is \<open>updateDependencies\<close>. When all
  five helper calls return, the dependency state becomes: \<open>dependencies\<close> and
  \<open>demoDependencies\<close> the results of \<open>extractDependencies\<close> on the code and on the demo
  code, \<open>componentNames\<close> and \<open>demoComponentName\<close> the results of \<open>extractComponentNames\<close> on
  the code and of \<open>extractDemoComponentName\<close> on the demo code, and \<open>internalDependencies\<close>
  the result of \<open>findInternalDependencies\<close> on the two dependency records. When any of the
  calls throws, the dependency state stays as it was.
\<close>

theorem updateDependencies_recomputes:
  "(previous \<noteq> Some (fs_code st, fs_demo_code st) \<longrightarrow>
      dependenciesEffect ps previous st = updateDependencies ps st)
   \<and> dependenciesEffect ps (Some (fs_code st, fs_demo_code st)) st = st
   \<and> (\<forall>names deps demoDeps demoName internal.
        extractComponentNames ps (fs_code st) = Inr names
        \<and> extractDependencies ps (fs_code st) = Inr deps
        \<and> extractDependencies ps (fs_demo_code st) = Inr demoDeps
        \<and> extractDemoComponentName ps (fs_demo_code st) = Inr demoName
        \<and> findInternalDependencies ps deps demoDeps = Inr internal
        \<longrightarrow> fs_componentDependencies (updateDependencies ps st) =
              \<lparr> dependencies = deps, demoDependencies = demoDeps, internalDependencies = internal,
                componentNames = names, demoComponentName = demoName \<rparr>)
   \<and> ((\<exists>e. extractComponentNames ps (fs_code st) = Inl e
            \<or> extractDependencies ps (fs_code st) = Inl e
            \<or> extractDependencies ps (fs_demo_code st) = Inl e
            \<or> extractDemoComponentName ps (fs_demo_code st) = Inl e
            \<or> (\<exists>deps demoDeps. extractDependencies ps (fs_code st) = Inr deps
                  \<and> extractDependencies ps (fs_demo_code st) = Inr demoDeps
                  \<and> findInternalDependencies ps deps demoDeps = Inl e))
        \<longrightarrow> fs_componentDependencies (updateDependencies ps st) = fs_componentDependencies st)"
proof (intro conjI impI allI)
  assume "previous \<noteq> Some (fs_code st, fs_demo_code st)"
  then show "dependenciesEffect ps previous st = updateDependencies ps st"
    by (simp add: dependenciesEffect_def useEffect_def)
next
  show "dependenciesEffect ps (Some (fs_code st, fs_demo_code st)) st = st"
    by (simp add: dependenciesEffect_def useEffect_def)
next
  fix names deps demoDeps demoName internal
  assume "extractComponentNames ps (fs_code st) = Inr names
        \<and> extractDependencies ps (fs_code st) = Inr deps
        \<and> extractDependencies ps (fs_demo_code st) = Inr demoDeps
        \<and> extractDemoComponentName ps (fs_demo_code st) = Inr demoName
        \<and> findInternalDependencies ps deps demoDeps = Inr internal"
  then have "parseDependencies ps (fs_code st) (fs_demo_code st) =
           Inr \<lparr> dependencies = deps, demoDependencies = demoDeps, internalDependencies = internal,
                 componentNames = names, demoComponentName = demoName \<rparr>"
    using parseDependencies_returns by blast
  then show "fs_componentDependencies (updateDependencies ps st) =
              \<lparr> dependencies = deps, demoDependencies = demoDeps, internalDependencies = internal,
                componentNames = names, demoComponentName = demoName \<rparr>"
    by (simp add: updateDependencies_def)
next
  assume "\<exists>e. extractComponentNames ps (fs_code st) = Inl e
            \<or> extractDependencies ps (fs_code st) = Inl e
            \<or> extractDependencies ps (fs_demo_code st) = Inl e
            \<or> extractDemoComponentName ps (fs_demo_code st) = Inl e
            \<or> (\<exists>deps demoDeps. extractDependencies ps (fs_code st) = Inr deps
                  \<and> extractDependencies ps (fs_demo_code st) = Inr demoDeps
                  \<and> findInternalDependencies ps deps demoDeps = Inl e)"
  then obtain e' where "parseDependencies ps (fs_code st) (fs_demo_code st) = Inl e'"
    using parseDependencies_throws by blast
  then show "fs_componentDependencies (updateDependencies ps st) = fs_componentDependencies st"
    by (simp add: updateDependencies_def)
qed

theorem updateDependencies_recomputes_witness:
  "fs_componentDependencies
      (dependenciesEffect example_parsers (Some ([], []))
         (example_form_state ''export function Button() {}'' ''export function ButtonDemo() {}''))
     = \<lparr> dependencies = [], demoDependencies = [], internalDependencies = [],
         componentNames = [''Button''], demoComponentName = ''ButtonDemo'' \<rparr>
   \<and> fs_componentDependencies
      (updateDependencies example_parsers (example_form_state ''import {'' ''export function ButtonDemo() {}''))
     = fs_componentDependencies (example_form_state ''import {'' ''export function ButtonDemo() {}'')"
proof -
  let ?st = "example_form_state ''export function Button() {}'' ''export function ButtonDemo() {}''"
  let ?bad = "example_form_state ''import {'' ''export function ButtonDemo() {}''"
  have c: "fs_code ?st = ''export function Button() {}''" "fs_demo_code ?st = ''export function ButtonDemo() {}''"
    by (simp_all add: example_form_state_def initial_form_state_def)
  have cb: "fs_code ?bad = ''import {''"
    by (simp add: example_form_state_def initial_form_state_def)
  note t = updateDependencies_recomputes[of "Some ([], [])" ?st example_parsers]
  have 1: "dependenciesEffect example_parsers (Some ([], [])) ?st = updateDependencies example_parsers ?st"
    using t c by simp
  have 2: "fs_componentDependencies (updateDependencies example_parsers ?st)
     = \<lparr> dependencies = [], demoDependencies = [], internalDependencies = [],
         componentNames = [''Button''], demoComponentName = ''ButtonDemo'' \<rparr>"
    using t[THEN conjunct2, THEN conjunct2, THEN conjunct1, rule_format,
            of "[''Button'']" "[]" "[]" "''ButtonDemo''" "[]"] c
    by (simp add: example_parsers_def)
  have 3: "fs_componentDependencies (updateDependencies example_parsers ?bad)
     = fs_componentDependencies ?bad"
    using updateDependencies_recomputes[of None ?bad example_parsers,
            THEN conjunct2, THEN conjunct2, THEN conjunct2] cb
    by (simp add: example_parsers_def)
  from 1 2 3 show ?thesis by simp
qed






lemma demoCodeEffect_second_run_example:
  "(case demoCodeEffect example_parsers
          (example_form_state ''export function Button() {}'' ''export function ButtonDemo() {}'') of
      Inl e \<Rightarrow> False
    | Inr st' \<Rightarrow>
        fs_importsToRemove st' = Some []
        \<and> (case previewEffect example_parsers st' of
             Inl e \<Rightarrow> False
           | Inr st'' \<Rightarrow>
               fs_previewProps st''
                 = Some ([(''/Component.tsx'', ''export function Button() {}''),
                          (''/Demo.tsx'', ''export function ButtonDemo() {}'')], [])))"
  by code_simp

end
